theory Spec2Isabelle
  imports Complex_Main "HOL-Library.Monad_Syntax"
begin

section \<open>Conventions of the embedding\<close>

text \<open>
  The backtester computes on C++ \<open>double\<close>, \<open>int\<close> and \<open>size_t\<close>.

  \<^item> A \<open>double\<close> is a value of the type \<open>double\<close> below: a real number, the negative zero,
    an infinity or a NaN, with the IEEE 754 rules for the operations on them. The
    result of an operation on finite values is the exact real result, made an infinity
    where rounding to nearest overflows; rounding within the range and underflow are
    not modelled.
  \<^item> An \<open>int\<close> is an \<open>int\<close>; the source only ever adds or subtracts one, which is taken
    not to overflow. The conversion of an \<open>int\<close> to \<open>size_t\<close> is \<open>size_t_of\<close>.
  \<^item> A \<open>std::vector\<close> is a list. An access out of range and \<open>back()\<close> on an empty vector
    are undefined behaviour in C++; a function that can get there returns \<open>None\<close>
    there, and \<open>None\<close> means nothing else.
  \<^item> A member function that mutates the \<open>Backtester\<close> object takes the object and
    returns the updated one.
  \<^item> A counted \<open>for\<close> loop over \<open>i = a, ..., b - 1\<close> is a fold of the loop body over
    \<open>[a..<b]\<close>; \<open>for_loop\<close> is that fold for a body that can fail.
  \<^item> What the program prints is not modelled.
\<close>

section \<open>Doubles\<close>

datatype double = Fin real | NZero | PInf | NInf | NaN

text \<open>
  \<open>Fin 0\<close> is the positive zero and \<open>NZero\<close> the negative one. The largest double is
  \<open>2^1024 - 2^971\<close>; an exact result of magnitude \<open>2^1024 - 2^970\<close> or more rounds to an
  infinity.
\<close>

definition overflow :: real where
  "overflow = 2 ^ 1024 - 2 ^ 970"

definition rounded :: "real \<Rightarrow> double" where
  "rounded r = (if overflow \<le> r then PInf else if r \<le> - overflow then NInf else Fin r)"

fun is_nan :: "double \<Rightarrow> bool" where
  "is_nan NaN = True"
| "is_nan _ = False"

fun is_inf :: "double \<Rightarrow> bool" where
  "is_inf PInf = True"
| "is_inf NInf = True"
| "is_inf _ = False"

fun is_zero :: "double \<Rightarrow> bool" where
  \<comment> \<open>\<open>x == 0.0\<close>\<close>
  "is_zero (Fin x) = (x = 0)"
| "is_zero NZero = True"
| "is_zero _ = False"

fun negative :: "double \<Rightarrow> bool" where
  \<comment> \<open>the sign bit\<close>
  "negative (Fin x) = (x < 0)"
| "negative NZero = True"
| "negative NInf = True"
| "negative _ = False"

fun val :: "double \<Rightarrow> real" where
  \<comment> \<open>the number that a finite double stands for\<close>
  "val (Fin x) = x"
| "val _ = 0"

fun is_finite :: "double \<Rightarrow> bool" where
  "is_finite (Fin x) = True"
| "is_finite NZero = True"
| "is_finite _ = False"

fun representable :: "double \<Rightarrow> bool" where
  \<comment> \<open>a finite value is below the threshold of overflow, as every result of an operation is\<close>
  "representable (Fin x) = (\<bar>x\<bar> < overflow)"
| "representable _ = True"

definition finite_in :: "real \<Rightarrow> real \<Rightarrow> double \<Rightarrow> bool" where
  \<comment> \<open>a finite double between two bounds\<close>
  "finite_in lo hi a = (is_finite a \<and> lo \<le> val a \<and> val a \<le> hi)"

definition signed_zero :: "bool \<Rightarrow> double" where
  "signed_zero neg = (if neg then NZero else Fin 0)"

definition signed_inf :: "bool \<Rightarrow> double" where
  "signed_inf neg = (if neg then NInf else PInf)"

instantiation double :: "{uminus, plus, minus, times, inverse, ord}"
begin

definition uminus_double :: "double \<Rightarrow> double" where
  "- a = (case a of Fin x \<Rightarrow> if x = 0 then NZero else Fin (- x)
          | NZero \<Rightarrow> Fin 0 | PInf \<Rightarrow> NInf | NInf \<Rightarrow> PInf | NaN \<Rightarrow> NaN)"

definition plus_double :: "double \<Rightarrow> double \<Rightarrow> double" where
  \<comment> \<open>a zero sum is positive unless both operands are the negative zero\<close>
  "a + b =
     (if is_nan a \<or> is_nan b then NaN
      else if is_inf a then (if is_inf b \<and> negative a \<noteq> negative b then NaN else a)
      else if is_inf b then b
      else if val a + val b = 0 then signed_zero (a = NZero \<and> b = NZero)
      else rounded (val a + val b))"

definition minus_double :: "double \<Rightarrow> double \<Rightarrow> double" where
  "(a :: double) - b = a + (- b)"

definition times_double :: "double \<Rightarrow> double \<Rightarrow> double" where
  "a * b =
     (if is_nan a \<or> is_nan b then NaN
      else if is_inf a \<or> is_inf b
      then (if is_zero a \<or> is_zero b then NaN else signed_inf (negative a \<noteq> negative b))
      else if val a * val b = 0 then signed_zero (negative a \<noteq> negative b)
      else rounded (val a * val b))"

definition divide_double :: "double \<Rightarrow> double \<Rightarrow> double" where
  "a div b =
     (if is_nan a \<or> is_nan b then NaN
      else if is_inf a then (if is_inf b then NaN else signed_inf (negative a \<noteq> negative b))
      else if is_inf b then signed_zero (negative a \<noteq> negative b)
      else if is_zero b
      then (if is_zero a then NaN else signed_inf (negative a \<noteq> negative b))
      else if is_zero a then signed_zero (negative a \<noteq> negative b)
      else rounded (val a / val b))"

definition inverse_double :: "double \<Rightarrow> double" where
  "inverse a = Fin 1 div a"

definition less_double :: "double \<Rightarrow> double \<Rightarrow> bool" where
  \<comment> \<open>false when an operand is a NaN; the two zeros are equal\<close>
  "a < b \<longleftrightarrow>
     (if is_nan a \<or> is_nan b then False
      else if a = PInf \<or> b = NInf then False
      else if a = NInf \<or> b = PInf then True
      else val a < val b)"

definition less_eq_double :: "double \<Rightarrow> double \<Rightarrow> bool" where
  "a \<le> b \<longleftrightarrow>
     (if is_nan a \<or> is_nan b then False
      else if a = NInf \<or> b = PInf then True
      else if a = PInf \<or> b = NInf then False
      else val a \<le> val b)"

instance ..

end

definition std_max :: "double \<Rightarrow> double \<Rightarrow> double" where
  \<comment> \<open>\<open>std::max(a, b)\<close> is \<open>(a < b) ? b : a\<close>\<close>
  "std_max a b = (if a < b then b else a)"

definition std_min :: "double \<Rightarrow> double \<Rightarrow> double" where
  \<comment> \<open>\<open>std::min(a, b)\<close> is \<open>(b < a) ? b : a\<close>\<close>
  "std_min a b = (if b < a then b else a)"

definition double_sqrt :: "double \<Rightarrow> double" where
  \<comment> \<open>\<open>std::sqrt\<close>\<close>
  "double_sqrt a =
     (case a of Fin x \<Rightarrow> if x < 0 then NaN else Fin (sqrt x)
      | NZero \<Rightarrow> NZero | PInf \<Rightarrow> PInf | NInf \<Rightarrow> NaN | NaN \<Rightarrow> NaN)"

definition double_of_int :: "int \<Rightarrow> double" where
  \<comment> \<open>the conversion of an \<open>int\<close> operand; every \<open>int\<close> is a double\<close>
  "double_of_int n = Fin (of_int n)"

definition double_of_nat :: "nat \<Rightarrow> double" where
  \<comment> \<open>the conversion of a \<open>size_t\<close> operand (a count of trades or of bars)\<close>
  "double_of_nat n = Fin (of_nat n)"

definition double_sum :: "double list \<Rightarrow> double" where
  \<comment> \<open>the sum that a loop \<open>s += x\<close> from \<open>s = 0.0\<close> leaves, in the order of the list\<close>
  "double_sum xs = fold (\<lambda>x s. s + x) xs (Fin 0)"

section \<open>Integers, vectors and loops\<close>

definition size_t_of :: "int \<Rightarrow> nat" where
  \<comment> \<open>\<open>static_cast<size_t>(x)\<close> for a 32-bit \<open>x\<close> on a 64-bit target\<close>
  "size_t_of x = (if 0 \<le> x then nat x else 2 ^ 64 - nat (- x))"

fun for_loop :: "nat list \<Rightarrow> (nat \<Rightarrow> 's \<Rightarrow> 's option) \<Rightarrow> 's \<Rightarrow> 's option" where
  "for_loop [] body s = Some s"
| "for_loop (i # is) body s =
     (case body i s of None \<Rightarrow> None | Some s' \<Rightarrow> for_loop is body s')"

section \<open>Data model (types.hpp)\<close>

record OHLCV =
  date :: string
  openPrice :: double
  high :: double
  low :: double
  close :: double
  adjClose :: double
  volume :: int

record Trade =
  entryDate :: string
  exitDate :: string
  entryPrice :: double
  exitPrice :: double
  shares :: double
  pnl :: double
  returnPct :: double

record MACDResult =
  macd :: "double list"
  signal :: "double list"
  histogram :: "double list"

record BollingerBands =
  upper :: "double list"
  middle :: "double list"
  lower :: "double list"

section \<open>Indicator library (TechnicalIndicators.cpp)\<close>

text \<open>
  \<open>SMA\<close> and \<open>EMA\<close> return early when the series is shorter than the period. Past that
  test a period \<open>\<le> 0\<close> writes \<open>sma[period - 1]\<close>, an index of at least \<open>2^64 - 1\<close> after
  conversion, which no vector has: undefined behaviour.
\<close>

definition SMA :: "double list \<Rightarrow> int \<Rightarrow> double list option" where
  "SMA prices period =
     (let sma = replicate (length prices) (Fin 0) in
      if length prices < size_t_of period then Some sma
      else if period \<le> 0 then None
      else
        let p = nat period;
            sum = fold (\<lambda>i s. s + prices ! i) [0..<p] (Fin 0);
            sma = sma[p - 1 := sum / double_of_int period]
        in Some (snd (fold (\<lambda>i (sum, sma).
                          let sum = sum - prices ! (i - p) + prices ! i
                          in (sum, sma[i := sum / double_of_int period]))
                        [p..<length prices] (sum, sma))))"

definition EMA :: "double list \<Rightarrow> int \<Rightarrow> double list option" where
  "EMA prices period =
     (let ema = replicate (length prices) (Fin 0) in
      if length prices < size_t_of period then Some ema
      else if period \<le> 0 then None
      else
        let p = nat period;
            sum = fold (\<lambda>i s. s + prices ! i) [0..<p] (Fin 0);
            ema = ema[p - 1 := sum / double_of_int period];
            multiplier = Fin 2 / (double_of_int period + Fin 1)
        in Some (fold (\<lambda>i ema. ema[i := (prices ! i - ema ! (i - 1)) * multiplier + ema ! (i - 1)])
                   [p..<length prices] ema))"

text \<open>
  \<open>RSI\<close>. The two statements \<open>rs = (avgLoss == 0.0) ? 100.0 : avgGain / avgLoss\<close> and
  \<open>rsi[i] = 100.0 - (100.0 / (1.0 + rs))\<close> occur twice in the source, after the initial
  averages and in the smoothing loop; they are \<open>RS_of\<close> and \<open>RSI_of\<close>. Past the length
  test, a negative period writes \<open>rsi[period]\<close> out of range. A period of \<open>0\<close> does
  not: it divides by \<open>0\<close> and goes on.
\<close>

definition RS_of :: "double \<Rightarrow> double \<Rightarrow> double" where
  "RS_of avgGain avgLoss = (if is_zero avgLoss then Fin 100 else avgGain / avgLoss)"

definition RSI_of :: "double \<Rightarrow> double" where
  "RSI_of rs = Fin 100 - Fin 100 / (Fin 1 + rs)"

definition RSI_initial :: "double list \<Rightarrow> nat \<Rightarrow> double \<times> double \<Rightarrow> double \<times> double" where
  \<comment> \<open>body of the loop \<open>for (int i = 1; i <= period; i++)\<close>\<close>
  "RSI_initial prices i = (\<lambda>(avgGain, avgLoss).
     let change = prices ! i - prices ! (i - 1)
     in if change > Fin 0 then (avgGain + change, avgLoss) else (avgGain, avgLoss + - change))"

definition RSI_smoothed ::
  "int \<Rightarrow> double list \<Rightarrow> nat \<Rightarrow> double \<times> double \<Rightarrow> double \<times> double" where
  \<comment> \<open>the averages after one round of the smoothing loop\<close>
  "RSI_smoothed period prices i = (\<lambda>(avgGain, avgLoss).
     let change = prices ! i - prices ! (i - 1);
         gain = (if change > Fin 0 then change else Fin 0);
         loss = (if change < Fin 0 then - change else Fin 0)
     in ((avgGain * double_of_int (period - 1) + gain) / double_of_int period,
         (avgLoss * double_of_int (period - 1) + loss) / double_of_int period))"

definition RSI_step ::
  "int \<Rightarrow> double list \<Rightarrow> nat \<Rightarrow> double list \<times> double \<times> double
   \<Rightarrow> double list \<times> double \<times> double" where
  \<comment> \<open>body of the loop \<open>for (size_t i = period + 1; i < prices.size(); i++)\<close>\<close>
  "RSI_step period prices i = (\<lambda>(rsi, avgs).
     let (avgGain, avgLoss) = RSI_smoothed period prices i avgs;
         rs = RS_of avgGain avgLoss
     in (rsi[i := RSI_of rs], avgGain, avgLoss))"

definition RSI_first :: "int \<Rightarrow> double list \<Rightarrow> double \<times> double" where
  \<comment> \<open>the averages over the first \<open>period\<close> changes\<close>
  "RSI_first period prices =
     (let (avgGain, avgLoss) = fold (RSI_initial prices) [1..<nat period + 1] (Fin 0, Fin 0)
      in (avgGain / double_of_int period, avgLoss / double_of_int period))"

definition RSI :: "double list \<Rightarrow> int \<Rightarrow> double list option" where
  "RSI prices period =
     (let rsi = replicate (length prices) (Fin 50) in
      if length prices < size_t_of (period + 1) then Some rsi
      else if period < 0 then None
      else
        let (avgGain, avgLoss) = RSI_first period prices;
            rs = RS_of avgGain avgLoss;
            rsi = rsi[nat period := RSI_of rs]
        in Some (fst (fold (RSI_step period prices) [nat period + 1..<length prices]
                        (rsi, avgGain, avgLoss))))"

text \<open>
  The averages that \<open>RSI\<close> holds when it writes \<open>rsi[i]\<close>, for \<open>i \<ge> period\<close>: the same
  recurrence, read off by index. It is used to state what the loop computes.
\<close>

fun RSI_avgs :: "int \<Rightarrow> double list \<Rightarrow> nat \<Rightarrow> double \<times> double" where
  "RSI_avgs period prices i =
     (if i \<le> nat period then RSI_first period prices
      else RSI_smoothed period prices i (RSI_avgs period prices (i - 1)))"

definition RSI_at :: "int \<Rightarrow> double list \<Rightarrow> nat \<Rightarrow> double" where
  \<comment> \<open>what \<open>RSI\<close> writes to \<open>rsi[i]\<close> from those averages\<close>
  "RSI_at period prices i =
     (case RSI_avgs period prices i of (avgGain, avgLoss) \<Rightarrow> RSI_of (RS_of avgGain avgLoss))"

text \<open>
  \<open>MACD\<close>, \<open>StdDev\<close> and \<open>BollingerBand\<close>. A loop that fills \<open>v[i]\<close> for every index
  from values of other vectors at \<open>i\<close> is a \<open>map\<close> over the indices.
\<close>

definition MACD :: "double list \<Rightarrow> int \<Rightarrow> int \<Rightarrow> int \<Rightarrow> MACDResult option" where
  "MACD prices fastPeriod slowPeriod signalPeriod =
     do {
       fastEMA \<leftarrow> EMA prices fastPeriod;
       slowEMA \<leftarrow> EMA prices slowPeriod;
       let macdLine = map (\<lambda>i. fastEMA ! i - slowEMA ! i) [0..<length prices];
       signalLine \<leftarrow> EMA macdLine signalPeriod;
       Some \<lparr>macd = macdLine, signal = signalLine,
             histogram = map (\<lambda>i. macdLine ! i - signalLine ! i) [0..<length prices]\<rparr>
     }"

definition StdDev :: "double list \<Rightarrow> int \<Rightarrow> double list option" where
  "StdDev prices period =
     do {
       sma \<leftarrow> SMA prices period;
       Some (fold (\<lambda>i stddev.
                     let sum = fold (\<lambda>j sum. let diff = prices ! (i - j) - sma ! i
                                             in sum + diff * diff)
                                 [0..<nat period] (Fin 0)
                     in stddev[i := double_sqrt (sum / double_of_int period)])
               [size_t_of (period - 1)..<length prices]
               (replicate (length prices) (Fin 0)))
     }"

definition BollingerBand :: "double list \<Rightarrow> int \<Rightarrow> double \<Rightarrow> BollingerBands option" where
  "BollingerBand prices period numStdDev =
     do {
       mid \<leftarrow> SMA prices period;
       stddev \<leftarrow> StdDev prices period;
       Some \<lparr>upper = map (\<lambda>i. mid ! i + numStdDev * stddev ! i) [0..<length prices],
             middle = mid,
             lower = map (\<lambda>i. mid ! i - numStdDev * stddev ! i) [0..<length prices]\<rparr>
     }"

section \<open>Simulation engine (Backtester.hpp, Backtester.cpp)\<close>

record Backtester =
  data :: "OHLCV list"
  trades :: "Trade list"
  shortPeriod :: int
  longPeriod :: int
  initialCapital :: double
  useRSI :: bool
  useEMA :: bool
  useMACD :: bool
  useBollinger :: bool
  stopLossPercent :: double
  takeProfitPercent :: double
  commissionRate :: double
  currentCash :: double
  currentShares :: double
  inPosition :: bool
  useKellyCriterion :: bool

definition Backtester_new ::
  "OHLCV list \<Rightarrow> int \<Rightarrow> int \<Rightarrow> double \<Rightarrow> bool \<Rightarrow> bool \<Rightarrow> bool \<Rightarrow> bool
   \<Rightarrow> double \<Rightarrow> double \<Rightarrow> double \<Rightarrow> bool \<Rightarrow> Backtester" where
  \<comment> \<open>the constructor; \<open>trades\<close> is default-constructed, so empty\<close>
  "Backtester_new d shortMA longMA capital rsi ema macd' bollinger
       stopLoss takeProfit commission kelly =
     \<lparr>data = d, trades = [], shortPeriod = shortMA, longPeriod = longMA,
      initialCapital = capital, useRSI = rsi, useEMA = ema, useMACD = macd',
      useBollinger = bollinger, stopLossPercent = stopLoss, takeProfitPercent = takeProfit,
      commissionRate = commission, currentCash = capital, currentShares = Fin 0,
      inPosition = False, useKellyCriterion = kelly\<rparr>"

subsection \<open>Position sizing\<close>

definition kelly_tally :: "Trade \<Rightarrow> int \<times> double \<times> double \<Rightarrow> int \<times> double \<times> double" where
  \<comment> \<open>body of the loop over the trades in \<open>calculateKellyFraction\<close>\<close>
  "kelly_tally t = (\<lambda>(wins, totalWinAmount, totalLossAmount).
     if pnl t > Fin 0 then (wins + 1, totalWinAmount + returnPct t, totalLossAmount)
     else (wins, totalWinAmount, totalLossAmount + - returnPct t))"

definition calculateKellyFraction :: "Backtester \<Rightarrow> double" where
  "calculateKellyFraction b =
     (if length (trades b) < 5 then Fin 1
      else
        let (wins, totalWinAmount, totalLossAmount) =
              fold kelly_tally (trades b) (0, Fin 0, Fin 0) in
        if wins = 0 \<or> wins = int (length (trades b)) then Fin 1
        else
          let winRate = double_of_int wins / double_of_nat (length (trades b));
              avgWin = totalWinAmount / double_of_int wins;
              avgLoss = totalLossAmount / double_of_nat (length (trades b) - nat wins)
          in if is_zero avgLoss then Fin 1
             else
               let kelly = winRate - (Fin 1 - winRate) / (avgWin / avgLoss)
               in std_max (Fin 0) (std_min (kelly * Fin 0.5) (Fin 1)))"

subsection \<open>Entering and leaving a position\<close>

text \<open>
  \<open>enterPosition\<close> and \<open>exitPosition\<close> start with the same conditional expression for the
  price of the fill; it is \<open>fillPrice\<close>. Reading \<open>data[idx]\<close> with \<open>idx\<close> out of range is
  undefined behaviour.
\<close>

definition fillPrice :: "OHLCV list \<Rightarrow> nat \<Rightarrow> double option" where
  "fillPrice d idx =
     (if idx + 1 < length d \<and> openPrice (d ! (idx + 1)) > Fin 0
      then Some (openPrice (d ! (idx + 1)))
      else if idx < length d then Some (close (d ! idx))
      else None)"

text \<open>
  \<open>Trade t;\<close> leaves \<open>exitPrice\<close>, \<open>pnl\<close> and \<open>returnPct\<close> indeterminate; they are \<open>0.0\<close>
  here. Nothing reads them before \<open>exitPosition\<close> has set them: \<open>calculateKellyFraction\<close>
  runs before the new trade is appended, and the metrics are computed after \<open>run\<close>.
\<close>

definition enterPosition :: "Backtester \<Rightarrow> nat \<Rightarrow> Backtester option" where
  "enterPosition b idx =
     do {
       price \<leftarrow> fillPrice (data b) idx;
       let commission = currentCash b * commissionRate b;
       let availableCash = currentCash b - commission;
       let positionFraction =
         (if useKellyCriterion b \<and> length (trades b) \<ge> 5 then calculateKellyFraction b
          else Fin 1);
       let newShares = (availableCash * positionFraction) / price;
       Some (b\<lparr>currentShares := newShares, currentCash := Fin 0, inPosition := True,
               trades := trades b @
                 [\<lparr>entryDate = date (data b ! idx), exitDate = [], entryPrice = price,
                   exitPrice = Fin 0, shares = newShares, pnl = Fin 0, returnPct = Fin 0\<rparr>]\<rparr>)
     }"

text \<open>\<open>trades.back()\<close> on an empty log is undefined behaviour.\<close>

definition exitPosition :: "Backtester \<Rightarrow> nat \<Rightarrow> Backtester option" where
  "exitPosition b idx =
     do {
       price \<leftarrow> fillPrice (data b) idx;
       let grossProceeds = currentShares b * price;
       let commission = grossProceeds * commissionRate b;
       let cash = grossProceeds - commission;
       if trades b = [] then None
       else
         let t = last (trades b);
             profit = cash - shares t * entryPrice t
         in Some (b\<lparr>currentCash := cash, currentShares := Fin 0, inPosition := False,
                    trades := butlast (trades b) @
                      [t\<lparr>exitDate := date (data b ! idx), exitPrice := price,
                         pnl := profit,
                         returnPct := (profit / (shares t * entryPrice t)) * Fin 100\<rparr>]\<rparr>)
     }"

subsection \<open>Risk management\<close>

definition checkStopLoss :: "Backtester \<Rightarrow> nat \<Rightarrow> bool option" where
  "checkStopLoss b idx =
     (if stopLossPercent b \<le> Fin 0 \<or> trades b = [] then Some False
      else if length (data b) \<le> idx then None
      else
        let currentPrice = close (data b ! idx);
            entry = entryPrice (last (trades b));
            pnlPercent = (currentPrice - entry) / entry
        in Some (pnlPercent \<le> - stopLossPercent b))"

definition checkTakeProfit :: "Backtester \<Rightarrow> nat \<Rightarrow> bool option" where
  "checkTakeProfit b idx =
     (if takeProfitPercent b \<le> Fin 0 \<or> trades b = [] then Some False
      else if length (data b) \<le> idx then None
      else
        let currentPrice = close (data b ! idx);
            entry = entryPrice (last (trades b));
            pnlPercent = (currentPrice - entry) / entry
        in Some (pnlPercent \<ge> takeProfitPercent b))"

subsection \<open>The run\<close>

text \<open>
  The body of the loop of \<open>run\<close> is split where the source \<open>continue\<close>s: \<open>run_signals\<close> is
  what follows the risk checks, \<open>run_body\<close> the whole round. The indicator vectors are the
  ones \<open>run\<close> computes before the loop; each has one entry per bar, so the reads at \<open>i\<close>
  and \<open>i - 1\<close> are in range for every index below the number of bars.
\<close>

definition run_signals ::
  "double list \<Rightarrow> double list \<Rightarrow> double list \<Rightarrow> double list \<Rightarrow> MACDResult \<Rightarrow> BollingerBands
   \<Rightarrow> nat \<Rightarrow> Backtester \<Rightarrow> Backtester option" where
  "run_signals closes shortMA longMA rsi macdData bb i b =
     (let (entrySignal, exitSignal) =
            (if i > 0 then
               let currentCross = shortMA ! i > longMA ! i;
                   previousCross = shortMA ! (i - 1) > longMA ! (i - 1)
               in if currentCross \<and> \<not> previousCross then (True, False)
                  else if \<not> currentCross \<and> previousCross then (False, True)
                  else (False, False)
             else (False, False));
          entrySignal = (if useRSI b \<and> entrySignal
                         then (if rsi ! i \<ge> Fin 70 then False else entrySignal)
                         else entrySignal);
          entrySignal = (if useMACD b \<and> entrySignal
                         then (if histogram macdData ! i \<le> Fin 0 then False else entrySignal)
                         else entrySignal);
          entrySignal = (if useBollinger b \<and> entrySignal
                         then (if closes ! i > upper bb ! i then False else entrySignal)
                         else entrySignal)
      in if entrySignal \<and> \<not> inPosition b then enterPosition b i
         else if exitSignal \<and> inPosition b then exitPosition b i
         else Some b)"

definition run_body ::
  "double list \<Rightarrow> double list \<Rightarrow> double list \<Rightarrow> double list \<Rightarrow> MACDResult \<Rightarrow> BollingerBands
   \<Rightarrow> nat \<Rightarrow> Backtester \<Rightarrow> Backtester option" where
  "run_body closes shortMA longMA rsi macdData bb i b =
     (if inPosition b then
        do {
          stop \<leftarrow> checkStopLoss b i;
          if stop then exitPosition b i
          else do {
            take \<leftarrow> checkTakeProfit b i;
            if take then exitPosition b i
            else run_signals closes shortMA longMA rsi macdData bb i b
          }
        }
      else run_signals closes shortMA longMA rsi macdData bb i b)"

text \<open>
  \<open>run_upto b k\<close> is \<open>run\<close> from the extraction of the closes through the rounds of the
  loop for the bars below \<open>k\<close>: the state of \<open>run\<close> when its loop has handled those bars
  and no others. The bound of the loop in the source is the number of bars.
\<close>

definition run_upto :: "Backtester \<Rightarrow> nat \<Rightarrow> Backtester option" where
  "run_upto b k =
     do {
       let closes = map close (data b);
       shortMA \<leftarrow> (if useEMA b then EMA closes (shortPeriod b) else SMA closes (shortPeriod b));
       longMA \<leftarrow> (if useEMA b then EMA closes (longPeriod b) else SMA closes (longPeriod b));
       rsi \<leftarrow> (if useRSI b then RSI closes 14 else Some []);
       macdData \<leftarrow> (if useMACD b then MACD closes 12 26 9
                    else Some \<lparr>macd = [], signal = [], histogram = []\<rparr>);
       bb \<leftarrow> (if useBollinger b then BollingerBand closes 20 (Fin 2)
              else Some \<lparr>upper = [], middle = [], lower = []\<rparr>);
       for_loop [size_t_of (longPeriod b)..<k]
         (run_body closes shortMA longMA rsi macdData bb) b
     }"

definition run_loop :: "Backtester \<Rightarrow> Backtester option" where
  \<comment> \<open>\<open>run\<close> from the extraction of the closes to the end of the loop\<close>
  "run_loop b = run_upto b (length (data b))"

definition run :: "Backtester \<Rightarrow> Backtester option" where
  "run b =
     (if length (data b) < size_t_of (longPeriod b + 1) then Some b
      else do {
        b' \<leftarrow> run_loop b;
        if inPosition b' then exitPosition b' (length (data b') - 1) else Some b'
      })"

subsection \<open>The ledger\<close>

text \<open>
  The ledger of the engine is the cash, the shares held and the in-position flag of the
  object. \<open>flat_or_long\<close> says that a position holds no cash and that no position holds
  no shares, and that a position has its trade in the log.
\<close>

definition ledger :: "Backtester \<Rightarrow> double \<times> double \<times> bool" where
  "ledger b = (currentCash b, currentShares b, inPosition b)"

definition flat_or_long :: "Backtester \<Rightarrow> bool" where
  "flat_or_long b =
     (if inPosition b then currentCash b = Fin 0 \<and> trades b \<noteq> [] else currentShares b = Fin 0)"

text \<open>
  \<open>position_recorded\<close>: in a position, the shares of the ledger are the shares of the
  last trade of the log; out of one, with a trade in the log, the cash of the ledger is
  what the sale of the last trade has left: its shares times its exit price, less the
  commission on that amount.
\<close>

definition position_recorded :: "Backtester \<Rightarrow> bool" where
  "position_recorded b =
     (if inPosition b then trades b \<noteq> [] \<and> currentShares b = shares (last (trades b))
      else trades b = [] \<or>
           currentCash b = shares (last (trades b)) * exitPrice (last (trades b))
                           - shares (last (trades b)) * exitPrice (last (trades b)) * commissionRate b)"

text \<open>
  \<open>closed_trades\<close>: the trades of the log that \<open>exitPosition\<close> has finalized, which is
  all of them but the last one while a position is open. \<open>returns_consistent\<close> says that
  a position has its trade in the log and that a closed trade holds the return that
  \<open>exitPosition\<close> computes from its profit: the profit over the cost of its shares, in
  percent.
\<close>

definition closed_trades :: "Backtester \<Rightarrow> Trade list" where
  "closed_trades b = (if inPosition b then butlast (trades b) else trades b)"

definition returns_consistent :: "Backtester \<Rightarrow> bool" where
  "returns_consistent b =
     ((inPosition b \<longrightarrow> trades b \<noteq> [])
      \<and> (\<forall>t \<in> set (closed_trades b).
            returnPct t = pnl t / (shares t * entryPrice t) * Fin 100))"

section \<open>Metrics calculator (Backtester.cpp)\<close>

subsection \<open>Trade statistics\<close>

text \<open>
  Of \<open>calculateMetrics\<close>, the part that reads the trade log and nothing else: the loop
  over the trades and the fields \<open>numTrades\<close>, \<open>winningTrades\<close>, \<open>winRate\<close>, \<open>avgWin\<close>,
  \<open>avgLoss\<close> and \<open>profitFactor\<close> of \<open>PerformanceMetrics\<close>.
\<close>

record TradeStatistics =
  numTrades :: int
  winningTrades :: int
  winRate :: double
  avgWin :: double
  avgLoss :: double
  profitFactor :: double

definition metrics_tally :: "Trade \<Rightarrow> int \<times> double \<times> double \<Rightarrow> int \<times> double \<times> double" where
  \<comment> \<open>body of the loop over the trades in \<open>calculateMetrics\<close>\<close>
  "metrics_tally t = (\<lambda>(wins, totalWin, totalLoss).
     if pnl t > Fin 0 then (wins + 1, totalWin + pnl t, totalLoss)
     else (wins, totalWin, totalLoss + - pnl t))"

definition calculateMetrics_trades :: "Backtester \<Rightarrow> TradeStatistics" where
  "calculateMetrics_trades b =
     (let n = int (length (trades b));
          (wins, totalWin, totalLoss) = fold metrics_tally (trades b) (0, Fin 0, Fin 0)
      in \<lparr>numTrades = n,
          winningTrades = wins,
          winRate = (if n > 0 then double_of_int wins * Fin 100 / double_of_int n else Fin 0),
          avgWin = (if wins > 0 then totalWin / double_of_int wins else Fin 0),
          avgLoss = (if n - wins > 0 then totalLoss / double_of_int (n - wins) else Fin 0),
          profitFactor = (if totalLoss > Fin 0 then totalWin / totalLoss
                          else if totalWin > Fin 0 then Fin 999.99 else Fin 0)\<rparr>)"

subsection \<open>Winning and losing trades\<close>

text \<open>
  What the two loops over the trade log compute, said without the loops. A trade is a win
  when its profit is positive, and a loss otherwise. \<open>half_kelly\<close> is the fraction of
  the spec: \<open>winRate - (1 - winRate) / (avgWin / avgLoss)\<close>, halved and clamped to
  \<open>[0, 1]\<close>, with the averages over the return percentages.
\<close>

definition winners :: "Trade list \<Rightarrow> Trade list" where
  "winners ts = filter (\<lambda>t. pnl t > Fin 0) ts"

definition losers :: "Trade list \<Rightarrow> Trade list" where
  "losers ts = filter (\<lambda>t. \<not> pnl t > Fin 0) ts"

definition kelly_winRate :: "Trade list \<Rightarrow> double" where
  "kelly_winRate ts = double_of_nat (length (winners ts)) / double_of_nat (length ts)"

definition kelly_avgWin :: "Trade list \<Rightarrow> double" where
  "kelly_avgWin ts =
     double_sum (map returnPct (winners ts)) / double_of_nat (length (winners ts))"

definition kelly_avgLoss :: "Trade list \<Rightarrow> double" where
  "kelly_avgLoss ts =
     double_sum (map (\<lambda>t. - returnPct t) (losers ts)) / double_of_nat (length (losers ts))"

definition half_kelly :: "Trade list \<Rightarrow> double" where
  "half_kelly ts =
     std_max (Fin 0)
       (std_min ((kelly_winRate ts
                  - (Fin 1 - kelly_winRate ts) / (kelly_avgWin ts / kelly_avgLoss ts))
                 * Fin 0.5)
          (Fin 1))"

subsection \<open>Maximum drawdown\<close>

text \<open>The local variables of \<open>calculateMaxDrawdown\<close>.\<close>

record Replay =
  peak :: double
  maxDD :: double
  equity :: double
  tradeIdx :: nat
  holding :: bool
  heldPrice :: double
  heldShares :: double

definition drawdown_body :: "Backtester \<Rightarrow> nat \<Rightarrow> Replay \<Rightarrow> Replay" where
  \<comment> \<open>body of the loop; \<open>heldPrice\<close> and \<open>heldShares\<close> are the locals \<open>entryPrice\<close> and \<open>shares\<close>\<close>
  "drawdown_body b i r =
     (let r =
        (if tradeIdx r < length (trades b) then
           let r = (if \<not> holding r \<and> date (data b ! i) = entryDate (trades b ! tradeIdx r)
                    then r\<lparr>holding := True,
                           heldPrice := entryPrice (trades b ! tradeIdx r),
                           heldShares := shares (trades b ! tradeIdx r),
                           equity := shares (trades b ! tradeIdx r)
                                     * entryPrice (trades b ! tradeIdx r)\<rparr>
                    else r)
           in if holding r then
                let r = r\<lparr>equity := heldShares r * close (data b ! i)\<rparr>
                in if date (data b ! i) = exitDate (trades b ! tradeIdx r)
                   then r\<lparr>holding := False,
                          equity := heldShares r * exitPrice (trades b ! tradeIdx r),
                          tradeIdx := tradeIdx r + 1\<rparr>
                   else r
              else r
         else r);
          r = (if equity r > peak r then r\<lparr>peak := equity r\<rparr> else r);
          dd = ((peak r - equity r) / peak r) * Fin 100
      in if dd > maxDD r then r\<lparr>maxDD := dd\<rparr> else r)"

definition drawdown_start :: "Backtester \<Rightarrow> Replay" where
  \<comment> \<open>the locals before the loop\<close>
  "drawdown_start b =
     \<lparr>peak = initialCapital b, maxDD = Fin 0, equity = initialCapital b, tradeIdx = 0,
      holding = False, heldPrice = Fin 0, heldShares = Fin 0\<rparr>"

definition drawdown_upto :: "Backtester \<Rightarrow> nat \<Rightarrow> Replay" where
  \<comment> \<open>the locals when the loop has handled the bars below \<open>k\<close>, for \<open>k\<close> up to the number of bars\<close>
  "drawdown_upto b k =
     fold (drawdown_body b) [size_t_of (longPeriod b)..<k] (drawdown_start b)"

definition calculateMaxDrawdown :: "Backtester \<Rightarrow> double" where
  "calculateMaxDrawdown b =
     (if data b = [] then Fin 0 else maxDD (drawdown_upto b (length (data b))))"

text \<open>
  \<open>replay_tracks\<close>: while the replay holds a trade, that trade is in the log and the
  local share count is its share count.
\<close>

definition replay_tracks :: "Backtester \<Rightarrow> Replay \<Rightarrow> bool" where
  "replay_tracks b r =
     (if holding r
      then tradeIdx r < length (trades b) \<and> heldShares r = shares (trades b ! tradeIdx r)
      else True)"

section \<open>Example data\<close>

definition example_bar :: "string \<Rightarrow> real \<Rightarrow> real \<Rightarrow> OHLCV" where
  \<comment> \<open>a bar from its date, its open and its close\<close>
  "example_bar d opn cls =
     \<lparr>date = d, openPrice = Fin opn, high = Fin (max opn cls), low = Fin (min opn cls),
      close = Fin cls, adjClose = Fin cls, volume = 1000\<rparr>"

text \<open>
  Moving averages over 1 and 2 bars cross upwards on a bar that closes above the bar before
  it, when that one did not, and downwards on the mirror condition; so these series enter
  on the bars that close at 12 after an 8 and leave on the bars that close lower after a
  12. A fill is at the open of the next bar.
\<close>

definition example_open_bars :: "OHLCV list" where
  "example_open_bars =
     [example_bar ''2024-01-01'' 12 12, example_bar ''2024-01-02'' 10 8,
      example_bar ''2024-01-03'' 9 12]"

definition example_open :: Backtester where
  "example_open =
     Backtester_new example_open_bars 1 2 (Fin 1000) False False False False
       (Fin 0) (Fin 0) (Fin (1 / 1000)) False"

definition example_zero_close_bars :: "OHLCV list" where
  "example_zero_close_bars =
     [example_bar ''2024-01-01'' 12 12, example_bar ''2024-01-02'' 10 8,
      example_bar ''2024-01-03'' 9 12, example_bar ''2024-01-04'' 0 0]"

definition example_zero_close :: Backtester where
  "example_zero_close =
     Backtester_new example_zero_close_bars 1 2 (Fin 1000) False False False False
       (Fin 0) (Fin 0) (Fin (1 / 1000)) False"

definition example_kelly_bars :: "OHLCV list" where
  "example_kelly_bars =
     [example_bar ''2024-01-01'' 12 12, example_bar ''2024-01-02'' 10 8,
      example_bar ''2024-01-03'' 9 12, example_bar ''2024-01-04'' 10 8,
      example_bar ''2024-01-05'' 11 12, example_bar ''2024-01-08'' 10 8,
      example_bar ''2024-01-09'' 11 12, example_bar ''2024-01-10'' 10 8,
      example_bar ''2024-01-11'' 11 12, example_bar ''2024-01-12'' 10 8,
      example_bar ''2024-01-15'' 9 12, example_bar ''2024-01-16'' 10 8,
      example_bar ''2024-01-17'' 9 12, example_bar ''2024-01-18'' 10 10]"

definition example_kelly :: Backtester where
  "example_kelly =
     Backtester_new example_kelly_bars 1 2 (Fin 1000) False False False False
       (Fin 0) (Fin 0) (Fin 0) True"

definition example_losing_bars :: "OHLCV list" where
  "example_losing_bars =
     [example_bar ''2024-01-01'' 12 12, example_bar ''2024-01-02'' 10 8,
      example_bar ''2024-01-03'' 9 12, example_bar ''2024-01-04'' 10 8,
      example_bar ''2024-01-05'' 11 12, example_bar ''2024-01-08'' 10 8,
      example_bar ''2024-01-09'' 9 12, example_bar ''2024-01-10'' 10 8,
      example_bar ''2024-01-11'' 9 12, example_bar ''2024-01-12'' 10 8,
      example_bar ''2024-01-15'' 9 12, example_bar ''2024-01-16'' 10 8,
      example_bar ''2024-01-17'' 9 12, example_bar ''2024-01-18'' 10 10]"

definition example_losing :: Backtester where
  "example_losing =
     Backtester_new example_losing_bars 1 2 (Fin 1000) False False False False
       (Fin 0) (Fin 0) (Fin 0) True"

definition example_flat_bars :: "OHLCV list" where
  "example_flat_bars =
     [example_bar ''2024-01-01'' 12 12, example_bar ''2024-01-02'' 10 8,
      example_bar ''2024-01-03'' 9 12, example_bar ''2024-01-04'' 10 8,
      example_bar ''2024-01-05'' 10 8]"

definition example_flat :: Backtester where
  "example_flat =
     Backtester_new example_flat_bars 1 2 (Fin 1000) False False False False
       (Fin 0) (Fin 0) (Fin (1 / 1000)) False"

section \<open>Arithmetic on doubles\<close>

text \<open>
  The threshold of overflow lies far above the numbers of the examples and above
  \<open>2 ^ 1022\<close>; on finite values below it the operations are the real ones.
\<close>

lemma overflow_large: "1000000000000 < overflow"
proof -
  have p: "(2::real) ^ 1024 = 2 ^ 970 * 2 ^ 54"
    unfolding power_add [symmetric] by simp
  have o: "overflow = 2 ^ 970 * (2 ^ 54 - 1)"
    unfolding overflow_def p by (simp only: right_diff_distrib mult_1_right)
  have a: "(1::real) \<le> 2 ^ 970" by (rule one_le_power) simp
  have c: "(1000000000000::real) < 2 ^ 54 - 1" by simp
  have "1 * (2 ^ 54 - 1) \<le> (2::real) ^ 970 * (2 ^ 54 - 1)"
    using a c by (intro mult_right_mono) simp_all
  with c show ?thesis unfolding o by simp
qed

lemma overflow_pos: "0 < overflow"
  using overflow_large by simp

lemma rounded_small: "\<bar>r\<bar> \<le> 1000000000000 \<Longrightarrow> rounded r = Fin r"
  using overflow_large by (auto simp: rounded_def)

lemma rounded_0: "rounded 0 = Fin 0"
  by (simp add: rounded_small)

lemma Fin_plus: "Fin a + Fin b = rounded (a + b)"
  by (simp add: plus_double_def signed_zero_def rounded_0)

lemma Fin_uminus: "- Fin a = (if a = 0 then NZero else Fin (- a))"
  by (simp add: uminus_double_def)

lemma Fin_minus: "Fin a - Fin b = rounded (a - b)"
  by (simp add: minus_double_def plus_double_def uminus_double_def signed_zero_def rounded_0)

lemma Fin_times:
  "Fin a * Fin b =
     (if a * b = 0 then signed_zero ((a < 0) \<noteq> (b < 0)) else rounded (a * b))"
  by (simp add: times_double_def)

lemma Fin_divide:
  "Fin a / Fin b =
     (if b = 0 then (if a = 0 then NaN else signed_inf (a < 0))
      else if a = 0 then signed_zero (b < 0)
      else rounded (a / b))"
  by (simp add: divide_double_def)

lemma Fin_less: "Fin a < Fin b \<longleftrightarrow> a < b"
  by (simp add: less_double_def)

lemma Fin_less_eq: "Fin a \<le> Fin b \<longleftrightarrow> a \<le> b"
  by (simp add: less_eq_double_def)

lemma NZero_ops:
  "Fin a + NZero = rounded a" "NZero + Fin a = rounded a" "NZero + NZero = NZero"
  "- NZero = Fin 0" "Fin a - NZero = rounded a"
  by (simp_all add: plus_double_def minus_double_def uminus_double_def signed_zero_def rounded_0)

lemma NaN_ops:
  "NaN + a = NaN" "a + NaN = NaN" "NaN - a = NaN" "a - NaN = NaN"
  "NaN * a = NaN" "a * NaN = NaN" "NaN / a = NaN" "a / NaN = NaN" "- NaN = NaN"
  "\<not> NaN < a" "\<not> a < NaN" "\<not> NaN \<le> a" "\<not> a \<le> NaN"
  by (cases a; simp add: plus_double_def minus_double_def times_double_def divide_double_def
      uminus_double_def less_double_def less_eq_double_def)+

lemmas double_eval =
  Fin_plus Fin_uminus Fin_minus Fin_times Fin_divide Fin_less Fin_less_eq rounded_small
  NZero_ops NaN_ops signed_zero_def signed_inf_def double_of_int_def double_of_nat_def
  std_max_def std_min_def

lemma overflow_1022: "2 ^ 1022 < overflow"
proof -
  have p: "(2::real) ^ 1024 = 2 ^ 970 * 2 ^ 54" "(2::real) ^ 1022 = 2 ^ 970 * 2 ^ 52"
    unfolding power_add [symmetric] by simp_all
  have o: "overflow = 2 ^ 970 * (2 ^ 54 - 1)"
    unfolding overflow_def p by (simp only: right_diff_distrib mult_1_right)
  have "(0::real) < 2 ^ 970" by simp
  moreover have "(2::real) ^ 52 < 2 ^ 54 - 1" by simp
  ultimately show ?thesis unfolding o p by (rule mult_strict_left_mono [rotated])
qed

lemma is_finite_iff: "is_finite a \<longleftrightarrow> \<not> is_nan a \<and> \<not> is_inf a"
  by (cases a) simp_all

lemma rounded_within: "\<bar>r\<bar> < overflow \<Longrightarrow> rounded r = Fin r"
  by (auto simp: rounded_def)

lemma fin_plus:
  assumes "is_finite a" and "is_finite b" and "\<bar>val a + val b\<bar> < overflow"
  shows "is_finite (a + b) \<and> val (a + b) = val a + val b"
  using assms
  by (auto simp: is_finite_iff plus_double_def signed_zero_def rounded_within)

lemma fin_uminus:
  assumes "is_finite a"
  shows "is_finite (- a) \<and> val (- a) = - val a"
  using assms by (cases a) (simp_all add: uminus_double_def)

lemma fin_minus:
  assumes "is_finite a" and "is_finite b" and "\<bar>val a - val b\<bar> < overflow"
  shows "is_finite (a - b) \<and> val (a - b) = val a - val b"
  using assms fin_uminus [of b] fin_plus [of a "- b"]
  by (simp add: minus_double_def)

lemma fin_times:
  assumes "is_finite a" and "is_finite b" and "\<bar>val a * val b\<bar> < overflow"
  shows "is_finite (a * b) \<and> val (a * b) = val a * val b"
  using assms
  by (auto simp: is_finite_iff times_double_def signed_zero_def rounded_within)

lemma is_zero_val: "is_finite a \<Longrightarrow> is_zero a \<longleftrightarrow> val a = 0"
  by (cases a) simp_all

lemma fin_divide:
  assumes "is_finite a" and "is_finite b" and "val b \<noteq> 0" and "\<bar>val a / val b\<bar> < overflow"
  shows "is_finite (a / b) \<and> val (a / b) = val a / val b"
  using assms is_zero_val [of a] is_zero_val [of b]
  by (auto simp: is_finite_iff divide_double_def signed_zero_def rounded_within)

lemma fin_less: "is_finite a \<Longrightarrow> is_finite b \<Longrightarrow> a < b \<longleftrightarrow> val a < val b"
  by (cases a; cases b) (simp_all add: less_double_def)

lemma fin_less_eq: "is_finite a \<Longrightarrow> is_finite b \<Longrightarrow> a \<le> b \<longleftrightarrow> val a \<le> val b"
  by (cases a; cases b) (simp_all add: less_eq_double_def)

section \<open>Properties of the indicator library\<close>

subsection \<open>Insufficient history for a moving average\<close>

lemma size_t_of_pos: "0 \<le> x \<Longrightarrow> size_t_of x = nat x"
  by (simp add: size_t_of_def)

text \<open>
  Claim C9. For a period \<open>p > 0\<close> and a series shorter than \<open>p\<close>, \<open>SMA\<close> and \<open>EMA\<close>
  both return normally (no access out of range happens, there is no error value), and
  what they return has the length of the input and is \<open>0.0\<close> everywhere.
\<close>

theorem moving_average_short_series:
  assumes "0 < p" and "int (length prices) < p"
  shows "SMA prices p = Some (replicate (length prices) (Fin 0))
       \<and> EMA prices p = Some (replicate (length prices) (Fin 0))"
proof -
  from assms have "length prices < size_t_of p"
    by (simp add: size_t_of_pos)
  then show ?thesis
    by (simp add: SMA_def EMA_def)
qed

theorem moving_average_short_series_witness:
  "(0::int) < 3 \<and> int (length [Fin 10, Fin 11]) < 3
   \<and> SMA [Fin 10, Fin 11] 3 = Some [Fin 0, Fin 0] \<and> EMA [Fin 10, Fin 11] 3 = Some [Fin 0, Fin 0]"
  using moving_average_short_series [of 3 "[Fin 10, Fin 11]"] by simp

subsection \<open>The oscillator\<close>

text \<open>
  Bounds that keep sums, products and quotients of finite values within the range of a
  double, and with them the averages of \<open>RSI\<close> on prices of moderate size.
\<close>

declare RSI_avgs.simps [simp del]

lemma finite_in_mono:
  "finite_in lo hi a \<Longrightarrow> lo' \<le> lo \<Longrightarrow> hi \<le> hi' \<Longrightarrow> finite_in lo' hi' a"
  by (simp add: finite_in_def)

lemma finite_in_Fin: "finite_in lo hi (Fin x) \<longleftrightarrow> lo \<le> x \<and> x \<le> hi"
  by (simp add: finite_in_def)

lemma finite_in_plus:
  assumes "finite_in 0 h a" and "finite_in 0 k b" and "h + k < overflow"
  shows "finite_in 0 (h + k) (a + b)"
proof -
  from assms have "\<bar>val a + val b\<bar> < overflow"
    by (simp add: finite_in_def)
  with assms fin_plus [of a b] show ?thesis
    by (simp add: finite_in_def)
qed

lemma finite_in_uminus:
  assumes "finite_in lo hi a"
  shows "finite_in (- hi) (- lo) (- a)"
  using assms fin_uminus [of a] by (simp add: finite_in_def)

lemma finite_in_minus:
  assumes "finite_in (- m) m a" and "finite_in (- m) m b" and "2 * m < overflow"
  shows "finite_in (- (2 * m)) (2 * m) (a - b)"
proof -
  from assms have "\<bar>val a - val b\<bar> < overflow"
    unfolding finite_in_def by arith
  with assms fin_minus [of a b] show ?thesis
    unfolding finite_in_def by auto
qed

lemma finite_in_times:
  assumes "finite_in 0 h a" and "0 \<le> c" and "h * c < overflow"
  shows "finite_in 0 (h * c) (a * Fin c)"
proof -
  from assms have b: "0 \<le> val a * c" "val a * c \<le> h * c"
    by (simp_all add: finite_in_def mult_right_mono)
  with assms have "\<bar>val a * val (Fin c)\<bar> < overflow"
    by simp
  with assms b fin_times [of a "Fin c"] show ?thesis
    by (simp add: finite_in_def)
qed

lemma finite_in_divide:
  assumes "finite_in 0 (c * h) a" and "0 < c" and "c * h < overflow" and "1 \<le> c" and "0 \<le> h"
  shows "finite_in 0 h (a / Fin c)"
proof -
  from assms have b: "0 \<le> val a / c" "val a / c \<le> h"
    by (simp_all add: finite_in_def pos_divide_le_eq mult.commute)
  have "h \<le> c * h" using assms(4,5) by (simp add: mult_le_cancel_right1)
  with b assms have "\<bar>val a / val (Fin c)\<bar> < overflow"
    by simp
  with assms b fin_divide [of a "Fin c"] show ?thesis
    by (simp add: finite_in_def)
qed

lemma finite_in_pos: "finite_in lo hi a \<Longrightarrow> Fin 0 < a \<longleftrightarrow> 0 < val a"
  using fin_less [of "Fin 0" a] by (simp add: finite_in_def)

lemma finite_in_neg: "finite_in lo hi a \<Longrightarrow> a < Fin 0 \<longleftrightarrow> val a < 0"
  using fin_less [of a "Fin 0"] by (simp add: finite_in_def)

lemma RSI_initial_bound:
  assumes c: "finite_in (- C) C (prices ! i - prices ! (i - 1))"
    and g: "finite_in 0 (k * C) (fst s)" and l: "finite_in 0 (k * C) (snd s)"
    and o: "(k + 1) * C < overflow" and C: "0 \<le> C"
  shows "finite_in 0 ((k + 1) * C) (fst (RSI_initial prices i s))
       \<and> finite_in 0 ((k + 1) * C) (snd (RSI_initial prices i s))"
proof -
  define ch where "ch = prices ! i - prices ! (i - 1)"
  have e: "(k + 1) * C = k * C + C" by (simp add: distrib_right)
  have m: "finite_in 0 ((k + 1) * C) a" if "finite_in 0 (k * C) a" for a
    using C by (intro finite_in_mono [OF that]) (simp_all add: e)
  show ?thesis
  proof (cases "Fin 0 < ch")
    case True
    then have "0 < val ch" using c finite_in_pos [of "- C" C ch] by (simp add: ch_def)
    with c have "finite_in 0 C ch" by (simp add: finite_in_def ch_def)
    with g o have "finite_in 0 ((k + 1) * C) (fst s + ch)"
      unfolding e by (intro finite_in_plus)
    with True m [OF l] show ?thesis
      unfolding RSI_initial_def Let_def ch_def [symmetric] by (cases s) simp
  next
    case False
    then have "val ch \<le> 0" using c finite_in_pos [of "- C" C ch] by (simp add: ch_def)
    with c fin_uminus [of ch] have "finite_in 0 C (- ch)"
      by (simp add: finite_in_def ch_def)
    with l o have "finite_in 0 ((k + 1) * C) (snd s + - ch)"
      unfolding e by (intro finite_in_plus)
    with False m [OF g] show ?thesis
      unfolding RSI_initial_def Let_def ch_def [symmetric] by (cases s) simp
  qed
qed

lemma RSI_initial_fold_bound:
  assumes "\<forall>i\<in>set is. finite_in (- C) C (prices ! i - prices ! (i - 1))"
    and "finite_in 0 (real k * C) (fst s)" and "finite_in 0 (real k * C) (snd s)"
    and "real (k + length is) * C < overflow" and "0 \<le> C"
  shows "finite_in 0 (real (k + length is) * C) (fst (fold (RSI_initial prices) is s))
       \<and> finite_in 0 (real (k + length is) * C) (snd (fold (RSI_initial prices) is s))"
  using assms
proof (induction "is" arbitrary: s k)
  case Nil
  then show ?case by simp
next
  case (Cons i "is")
  have "(real k + 1) * C \<le> real (k + length (i # is)) * C"
    using Cons.prems(5) by (intro mult_right_mono) simp_all
  from this Cons.prems(4) have o: "(real k + 1) * C < overflow" by (rule le_less_trans)
  from Cons.prems(1) have c: "finite_in (- C) C (prices ! i - prices ! (i - 1))" by simp
  from RSI_initial_bound [OF c Cons.prems(2,3) o Cons.prems(5)]
  have s: "finite_in 0 (real (Suc k) * C) (fst (RSI_initial prices i s))"
    "finite_in 0 (real (Suc k) * C) (snd (RSI_initial prices i s))"
    by (simp_all add: add.commute)
  from Cons.prems(1) have r: "\<forall>i\<in>set is. finite_in (- C) C (prices ! i - prices ! (i - 1))"
    by simp
  from Cons.prems(4) have o': "real (Suc k + length is) * C < overflow" by simp
  from Cons.IH [OF r s o' Cons.prems(5)] show ?case by simp
qed

lemma RSI_first_bound:
  assumes p: "0 < period"
    and c: "\<forall>i. 0 < i \<and> i \<le> nat period \<longrightarrow> finite_in (- C) C (prices ! i - prices ! (i - 1))"
    and o: "real (nat period) * C < overflow" and C: "0 \<le> C"
  shows "finite_in 0 C (fst (RSI_first period prices))
       \<and> finite_in 0 C (snd (RSI_first period prices))"
proof -
  define s where "s = fold (RSI_initial prices) [1..<nat period + 1] (Fin 0, Fin 0)"
  have z: "finite_in 0 (real 0 * C) (fst (Fin 0, Fin 0))" "finite_in 0 (real 0 * C) (snd (Fin 0, Fin 0))"
    by (simp_all add: finite_in_Fin)
  have c': "\<forall>i\<in>set [1..<nat period + 1]. finite_in (- C) C (prices ! i - prices ! (i - 1))"
    using c by auto
  have o': "real (0 + length [1..<nat period + 1]) * C < overflow" using o p by auto
  have len: "0 + length [1..<nat period + 1] = nat period" by simp
  from RSI_initial_fold_bound [OF c' z o' C]
  have "finite_in 0 (real (nat period) * C) (fst s) \<and> finite_in 0 (real (nat period) * C) (snd s)"
    unfolding len s_def [symmetric] .
  then have b: "finite_in 0 (real (nat period) * C) (fst s)"
    "finite_in 0 (real (nat period) * C) (snd s)"
    by blast+
  have d: "double_of_int period = Fin (real (nat period))"
    using p by (simp add: double_of_int_def)
  have q: "0 < real (nat period)" "1 \<le> real (nat period)" using p by simp_all
  from finite_in_divide [OF b(1) q(1) o q(2) C] finite_in_divide [OF b(2) q(1) o q(2) C]
  show ?thesis
    unfolding RSI_first_def s_def [symmetric] split_beta d Let_def by simp
qed

lemma RSI_smoothed_bound:
  assumes p: "0 < period"
    and c: "finite_in (- C) C (prices ! i - prices ! (i - 1))"
    and g: "finite_in 0 C (fst s)" and l: "finite_in 0 C (snd s)"
    and o: "real (nat period) * C < overflow" and C: "0 \<le> C"
  shows "finite_in 0 C (fst (RSI_smoothed period prices i s))
       \<and> finite_in 0 C (snd (RSI_smoothed period prices i s))"
proof -
  define ch where "ch = prices ! i - prices ! (i - 1)"
  define gain where "gain = (if Fin 0 < ch then ch else Fin 0)"
  define loss where "loss = (if ch < Fin 0 then - ch else Fin 0)"
  define n where "n = real (nat period)"
  have n: "1 \<le> n" "0 < n" "0 \<le> n - 1" using p by (simp_all add: n_def)
  have d: "double_of_int period = Fin n" "double_of_int (period - 1) = Fin (n - 1)"
    using p by (simp_all add: double_of_int_def n_def)
  have o1: "C * (n - 1) + C = n * C" by (simp add: algebra_simps)
  have o2: "C * (n - 1) < overflow"
  proof -
    have "C * (n - 1) \<le> n * C" using C n by (simp add: algebra_simps)
    with o show ?thesis by (simp add: n_def)
  qed
  have o3: "n * C < overflow" using o by (simp add: n_def)
  have gn: "finite_in 0 C gain"
    using c finite_in_pos [of "- C" C ch] C
    by (auto simp: gain_def ch_def finite_in_def)
  have ls: "finite_in 0 C loss"
    using c finite_in_neg [of "- C" C ch] fin_uminus [of ch] C
    by (auto simp: loss_def ch_def finite_in_def)
  have r: "finite_in 0 C ((a * Fin (n - 1) + x) / Fin n)"
    if a: "finite_in 0 C a" and x: "finite_in 0 C x" for a x
  proof -
    from finite_in_times [OF a n(3) o2] have "finite_in 0 (C * (n - 1)) (a * Fin (n - 1))" .
    from finite_in_plus [OF this x] o3 have "finite_in 0 (n * C) (a * Fin (n - 1) + x)"
      by (simp add: o1)
    from finite_in_divide [OF this n(2) o3 n(1) C] show ?thesis .
  qed
  from r [OF g gn] r [OF l ls] show ?thesis
    unfolding RSI_smoothed_def Let_def d ch_def [symmetric] gain_def [symmetric]
      loss_def [symmetric]
    by (cases s) simp
qed

lemma RSI_avgs_bound:
  assumes p: "0 < period"
    and c: "\<forall>i. 0 < i \<and> i < length prices \<longrightarrow> finite_in (- C) C (prices ! i - prices ! (i - 1))"
    and n: "nat period < length prices"
    and o: "real (nat period) * C < overflow" and C: "0 \<le> C"
  shows "i < length prices \<Longrightarrow>
         finite_in 0 C (fst (RSI_avgs period prices i)) \<and> finite_in 0 C (snd (RSI_avgs period prices i))"
proof (induction i)
  case 0
  have "\<forall>i. 0 < i \<and> i \<le> nat period \<longrightarrow> finite_in (- C) C (prices ! i - prices ! (i - 1))"
    using c n by simp
  from RSI_first_bound [OF p this o C] show ?case
    by (simp add: RSI_avgs.simps [of _ _ 0])
next
  case (Suc i)
  show ?case
  proof (cases "Suc i \<le> nat period")
    case True
    have "\<forall>i. 0 < i \<and> i \<le> nat period \<longrightarrow> finite_in (- C) C (prices ! i - prices ! (i - 1))"
      using c n by simp
    from RSI_first_bound [OF p this o C] True show ?thesis
      by (simp add: RSI_avgs.simps [of _ _ "Suc i"])
  next
    case False
    from Suc have ih: "finite_in 0 C (fst (RSI_avgs period prices i))"
      "finite_in 0 C (snd (RSI_avgs period prices i))" by simp_all
    from c Suc.prems have "finite_in (- C) C (prices ! Suc i - prices ! (Suc i - 1))"
      by blast
    from RSI_smoothed_bound [OF p this ih o C] False show ?thesis
      by (simp add: RSI_avgs.simps [of _ _ "Suc i"])
  qed
qed

lemma RSI_of_range:
  assumes "finite_in 0 C g" and "finite_in 0 C l"
  shows "\<exists>z. RSI_of (RS_of g l) = Fin z \<and> 0 \<le> z \<and> z \<le> 100"
proof (cases "is_zero l")
  case True
  have "RSI_of (Fin 100) = Fin (10000 / 101)"
    by (simp add: RSI_of_def double_eval)
  moreover have "(0::real) \<le> 10000 / 101 \<and> (10000::real) / 101 \<le> 100" by simp
  ultimately show ?thesis using True
    unfolding RS_of_def by (intro exI [of _ "10000 / 101"]) simp
next
  case False
  have fg: "is_finite g" "0 \<le> val g" and fl: "is_finite l" "0 \<le> val l"
    using assms by (simp_all add: finite_in_def)
  from False fl have lp: "0 < val l" using is_zero_val [of l] by simp
  have rs: "g / l = Fin 0 \<or> g / l = NZero \<or> g / l = PInf \<or> (\<exists>q. g / l = Fin q \<and> 0 < q)"
  proof (cases "is_zero g")
    case True
    with fg fl False show ?thesis
      by (auto simp: divide_double_def is_finite_iff signed_zero_def)
  next
    case z: False
    with fg have "0 < val g" using is_zero_val [of g] by simp
    with lp have "0 < val g / val l" by simp
    then have "rounded (val g / val l) = PInf \<or> rounded (val g / val l) = Fin (val g / val l)"
      using overflow_pos by (auto simp: rounded_def)
    with z fg fl False \<open>0 < val g / val l\<close> show ?thesis
      by (auto simp: divide_double_def is_finite_iff)
  qed
  have d: "Fin 1 + g / l = PInf \<or> (\<exists>y. Fin 1 + g / l = Fin y \<and> 1 \<le> y)"
  proof -
    have "Fin 1 + Fin q = PInf \<or> Fin 1 + Fin q = Fin (1 + q)" if "0 < q" for q
      using that overflow_pos by (auto simp: plus_double_def rounded_def)
    moreover have "Fin 1 + Fin 0 = Fin 1" "Fin 1 + NZero = Fin 1" "Fin 1 + PInf = PInf"
      by (simp_all add: double_eval) (simp_all add: plus_double_def rounded_small)
    ultimately show ?thesis using rs by force
  qed
  have e: "\<exists>z. Fin 100 / (Fin 1 + g / l) = Fin z \<and> 0 \<le> z \<and> z \<le> 100"
  proof -
    have "Fin 100 / PInf = Fin 0"
      by (simp add: divide_double_def signed_zero_def)
    moreover have "Fin 100 / Fin y = Fin (100 / y) \<and> 0 \<le> 100 / y \<and> 100 / y \<le> 100"
      if "1 \<le> y" for y :: real
    proof -
      from that have b: "0 \<le> 100 / y" "100 / y \<le> 100"
        by (simp_all add: pos_divide_le_eq)
      then have "\<bar>100 / y\<bar> \<le> 1000000000000" by simp
      with that b show ?thesis by (simp add: double_eval)
    qed
    ultimately show ?thesis using d by auto
  qed
  then obtain z where z: "Fin 100 / (Fin 1 + g / l) = Fin z" "0 \<le> z" "z \<le> 100" by blast
  then have "\<bar>100 - z\<bar> \<le> 1000000000000" by simp
  with z have "Fin 100 - Fin 100 / (Fin 1 + g / l) = Fin (100 - z)"
    by (simp add: double_eval)
  with z False show ?thesis by (simp add: RS_of_def RSI_of_def)
qed

text \<open>One round of the smoothing loop moves from the averages of \<open>k\<close> to those of \<open>k + 1\<close>.\<close>

lemma RSI_step_eq:
  "nat period \<le> k \<Longrightarrow>
   RSI_step period prices (Suc k) (rsi, RSI_avgs period prices k)
     = (rsi[Suc k := RSI_at period prices (Suc k)], RSI_avgs period prices (Suc k))"
  by (simp add: RSI_step_def RSI_at_def RSI_avgs.simps [of _ _ "Suc k"] split_beta Let_def)

lemma RSI_fold:
  assumes "nat period \<le> k" and "k < length rsi0"
  shows "\<exists>rsi. fold (RSI_step period prices) [Suc (nat period)..<Suc k]
                 (rsi0, RSI_avgs period prices (nat period)) = (rsi, RSI_avgs period prices k)
             \<and> length rsi = length rsi0
             \<and> (\<forall>j<length rsi0. rsi ! j =
                   (if nat period < j \<and> j \<le> k then RSI_at period prices j else rsi0 ! j))"
  using assms
proof (induction k rule: nat_induct_at_least)
  case base
  then show ?case by auto
next
  case (Suc k)
  then obtain rsi where
    f: "fold (RSI_step period prices) [Suc (nat period)..<Suc k]
          (rsi0, RSI_avgs period prices (nat period)) = (rsi, RSI_avgs period prices k)"
    and l: "length rsi = length rsi0"
    and v: "\<forall>j<length rsi0. rsi ! j =
              (if nat period < j \<and> j \<le> k then RSI_at period prices j else rsi0 ! j)"
    by auto
  have "[Suc (nat period)..<Suc (Suc k)] = [Suc (nat period)..<Suc k] @ [Suc k]"
    using Suc.hyps by simp
  then have "fold (RSI_step period prices) [Suc (nat period)..<Suc (Suc k)]
               (rsi0, RSI_avgs period prices (nat period))
           = (rsi[Suc k := RSI_at period prices (Suc k)], RSI_avgs period prices (Suc k))"
    using f Suc.hyps by (simp add: RSI_step_eq)
  moreover have "\<forall>j<length rsi0. rsi[Suc k := RSI_at period prices (Suc k)] ! j =
       (if nat period < j \<and> j \<le> Suc k then RSI_at period prices j else rsi0 ! j)"
    using v l Suc.hyps Suc.prems by (auto simp: nth_list_update)
  ultimately show ?case using l by simp
qed

text \<open>
  What \<open>RSI\<close> returns for a period that is not negative: the sentinel before index
  \<open>period\<close>, and from there on the value computed from the averages of that index.
\<close>

lemma RSI_char:
  assumes "0 \<le> period"
  shows "\<exists>r. RSI prices period = Some r \<and> length r = length prices
           \<and> (\<forall>i<length prices. r ! i =
                 (if i < nat period then Fin 50 else RSI_at period prices i))"
proof (cases "length prices < size_t_of (period + 1)")
  case True
  with assms have "length prices \<le> nat period"
    by (simp add: size_t_of_pos)
  with True show ?thesis
    by (simp add: RSI_def)
next
  case False
  with assms have n: "nat period < length prices"
    by (simp add: size_t_of_pos)
  define rsi0 where
    "rsi0 = (replicate (length prices) (Fin 50))[nat period := RSI_at period prices (nat period)]"
  have l0: "nat period \<le> length prices - 1" "length prices - 1 < length rsi0"
    using n by (simp_all add: rsi0_def)
  from RSI_fold [OF l0] obtain rsi where
    f: "fold (RSI_step period prices) [Suc (nat period)..<Suc (length prices - 1)]
          (rsi0, RSI_avgs period prices (nat period))
        = (rsi, RSI_avgs period prices (length prices - 1))"
    and l: "length rsi = length rsi0"
    and v: "\<forall>j<length rsi0. rsi ! j =
              (if nat period < j \<and> j \<le> length prices - 1
               then RSI_at period prices j else rsi0 ! j)"
    by blast
  have a: "RSI_avgs period prices (nat period) = RSI_first period prices"
    by (simp add: RSI_avgs.simps [of _ _ "nat period"])
  have s: "Suc (length prices - 1) = length prices" using n by simp
  have f': "fold (RSI_step period prices) [Suc (nat period)..<length prices]
              (rsi0, RSI_first period prices)
            = (rsi, RSI_avgs period prices (length prices - 1))"
    using f unfolding s a .
  have "RSI prices period = Some rsi"
    using False assms f' [unfolded rsi0_def RSI_at_def a]
    by (simp add: RSI_def split_beta Let_def)
  moreover have "\<forall>i<length prices. rsi ! i =
      (if i < nat period then Fin 50 else RSI_at period prices i)"
    using v n by (auto simp: rsi0_def nth_list_update)
  ultimately show ?thesis using l by (simp add: rsi0_def)
qed

lemma RSI_at_range:
  assumes p: "0 < period" and q: "period < 2147483647"
    and m: "\<forall>x\<in>set prices. finite_in (- (2 ^ 990)) (2 ^ 990) x"
    and n: "nat period < length prices" and i: "i < length prices"
  shows "Fin 0 \<le> RSI_at period prices i \<and> RSI_at period prices i \<le> Fin 100"
proof -
  define C :: real where "C = 2 * 2 ^ 990"
  have C: "0 \<le> C" by (simp add: C_def)
  have t: "2 * (2::real) ^ 990 < overflow"
  proof -
    have "2 * (2::real) ^ 990 \<le> 2 ^ 1022" by simp
    from this overflow_1022 show ?thesis by (rule le_less_trans)
  qed
  have c: "\<forall>i. 0 < i \<and> i < length prices \<longrightarrow> finite_in (- C) C (prices ! i - prices ! (i - 1))"
  proof (intro allI impI)
    fix j assume j: "0 < j \<and> j < length prices"
    then have "j - 1 < length prices" by arith
    with j have "prices ! j \<in> set prices" "prices ! (j - 1) \<in> set prices"
      by (simp_all only: nth_mem)
    with m have "finite_in (- (2 ^ 990)) (2 ^ 990) (prices ! j)"
      "finite_in (- (2 ^ 990)) (2 ^ 990) (prices ! (j - 1))" by blast+
    from finite_in_minus [OF this t] show "finite_in (- C) C (prices ! j - prices ! (j - 1))"
      by (simp only: C_def)
  qed
  have o: "real (nat period) * C < overflow"
  proof -
    from q p have "real (nat period) \<le> 2147483648" by simp
    then have "real (nat period) * C \<le> 2147483648 * C"
      using C by (rule mult_right_mono)
    also have "2147483648 * C = 2 ^ 1022" by (simp add: C_def)
    finally show ?thesis using overflow_1022 by (rule le_less_trans)
  qed
  from RSI_avgs_bound [OF p c n o C i] RSI_of_range
  obtain z where "RSI_at period prices i = Fin z" "0 \<le> z" "z \<le> 100"
    unfolding RSI_at_def split_beta by blast
  then show ?thesis by (simp add: less_eq_double_def)
qed

lemmas RSI_eval = RSI_def RSI_first_def RSI_initial_def RSI_step_def RSI_smoothed_def RS_of_def
  RSI_of_def size_t_of_def double_eval upt_rec Let_def

lemma example_rising_avgs: "is_zero (snd (RSI_avgs 1 [Fin 1, Fin 2, Fin 3] 2))"
  by (simp add: RSI_avgs.simps RSI_eval)

lemma inf_ops:
  "Fin 0 < PInf" "\<not> Fin 0 < NInf" "Fin 0 + PInf = PInf" "- NInf = PInf" "- PInf = NInf"
  "PInf / Fin 2 = PInf" "PInf / PInf = NaN" "\<not> is_zero PInf"
  by (simp_all add: less_double_def plus_double_def uminus_double_def divide_double_def
      signed_inf_def)

lemma example_overflow_rsi: "RSI [Fin (- (2 ^ 1023)), Fin (2 ^ 1023), Fin (- (2 ^ 1023))] 2
      = Some [Fin 50, Fin 50, NaN]"
proof -
  define B :: real where "B = 2 ^ 1023"
  have e: "B + B = 2 ^ 1024" unfolding B_def by simp
  have "overflow \<le> 2 ^ 1024" unfolding overflow_def by simp
  then have o: "overflow \<le> B + B" by (simp only: e)
  then have o': "- B - B \<le> - overflow" by simp
  have d: "Fin B - Fin (- B) = PInf" "Fin (- B) - Fin B = NInf"
    using o o' overflow_pos by (simp_all add: Fin_minus rounded_def)
  have "RSI [Fin (- B), Fin B, Fin (- B)] 2 = Some [Fin 50, Fin 50, NaN]"
    by (simp add: RSI_def RSI_first_def RSI_initial_def RSI_step_def RSI_smoothed_def RS_of_def
        RSI_of_def size_t_of_def upt_rec Let_def d inf_ops NaN_ops double_of_int_def)
  then show ?thesis unfolding B_def .
qed

lemma example_zero_period_rsi: "RSI [Fin 1] 0 = Some [NaN]"
  by (simp add: RSI_eval divide_double_def)

lemma example_rising_rsi:
  "RSI [Fin 1, Fin 2, Fin 3] 1 = Some [Fin 50, Fin (10000 / 101), Fin (10000 / 101)]"
  by (simp add: RSI_eval)

text \<open>
  Claim C6, as stated: for every finite series and every period, \<open>RSI\<close> returns a series
  whose elements all lie in \<open>[0, 100]\<close>. It fails for the period \<open>0\<close> on a non-empty
  series: the length test passes, the first loop does not run, and \<open>avgGain /= period\<close>
  divides \<open>0.0\<close> by \<open>0\<close>; the NaN that results is stored in \<open>rsi[0]\<close>. It fails for the
  period \<open>2\<close> on the finite series \<open>-2^1023, 2^1023, -2^1023\<close> as well: both changes
  overflow, both averages are infinite, \<open>RS\<close> is infinity over infinity, and the value
  at index \<open>2\<close> is a NaN. A NaN is in no interval.
\<close>

theorem rsi_every_period_counterexample:
  "RSI [Fin 1] 0 = Some [NaN]
   \<and> RSI [Fin (- (2 ^ 1023)), Fin (2 ^ 1023), Fin (- (2 ^ 1023))] 2 = Some [Fin 50, Fin 50, NaN]
   \<and> \<not> Fin 0 \<le> NaN \<and> \<not> NaN \<le> Fin 100"
  using example_zero_period_rsi example_overflow_rsi by (simp add: less_eq_double_def)

text \<open>
  Claim C6, amended: for every period \<open>p\<close> with \<open>0 < p < 2^31 - 1\<close> and every series
  of finite prices of magnitude at most \<open>2^990\<close>, \<open>RSI\<close> returns a series of the length
  of the input, every element of it lies in \<open>[0, 100]\<close>, and the positions before index
  \<open>p\<close> hold exactly \<open>50\<close>.
\<close>

theorem rsi_range:
  assumes "0 < period" and "period < 2147483647"
    and "\<forall>x\<in>set prices. finite_in (- (2 ^ 990)) (2 ^ 990) x"
  shows "\<exists>r. RSI prices period = Some r \<and> length r = length prices
           \<and> (\<forall>i<length prices.
                 Fin 0 \<le> r ! i \<and> r ! i \<le> Fin 100 \<and> (i < nat period \<longrightarrow> r ! i = Fin 50))"
proof -
  from assms(1) have "0 \<le> period" by simp
  from RSI_char [OF this] obtain r where
    r: "RSI prices period = Some r" "length r = length prices"
    and v: "\<forall>i<length prices. r ! i = (if i < nat period then Fin 50 else RSI_at period prices i)"
    by blast
  have "Fin 0 \<le> r ! i \<and> r ! i \<le> Fin 100 \<and> (i < nat period \<longrightarrow> r ! i = Fin 50)"
    if i: "i < length prices" for i
  proof (cases "i < nat period")
    case True
    with v i show ?thesis by (simp add: less_eq_double_def)
  next
    case False
    with i have "nat period < length prices" by simp
    from RSI_at_range [OF assms this i] v i False show ?thesis by simp
  qed
  with r show ?thesis by blast
qed

theorem rsi_range_witness:
  "(0::int) < 1 \<and> (1::int) < 2147483647
   \<and> finite_in (- (2 ^ 990)) (2 ^ 990) (Fin 1) \<and> finite_in (- (2 ^ 990)) (2 ^ 990) (Fin 2)
   \<and> (\<exists>r. RSI [Fin 1, Fin 2, Fin 1] 1 = Some r \<and> length r = length [Fin 1, Fin 2, Fin 1]
         \<and> (\<forall>i<length [Fin 1, Fin 2, Fin 1].
               Fin 0 \<le> r ! i \<and> r ! i \<le> Fin 100 \<and> (i < nat 1 \<longrightarrow> r ! i = Fin 50)))"
  using rsi_range [of 1 "[Fin 1, Fin 2, Fin 1]"] by (simp add: finite_in_def)

text \<open>
  Claim C7, as stated: where the smoothed average loss is exactly \<open>0\<close>, the value
  written is \<open>100\<close>. On the rising series \<open>1, 2, 3\<close> with period \<open>1\<close> the average loss
  at index \<open>2\<close> is \<open>0\<close>, and the value written there is \<open>10000 / 101\<close>, not \<open>100\<close>.
\<close>

theorem rsi_saturation_counterexample:
  "is_zero (snd (RSI_avgs 1 [Fin 1, Fin 2, Fin 3] 2))
   \<and> RSI [Fin 1, Fin 2, Fin 3] 1 = Some [Fin 50, Fin (10000 / 101), Fin (10000 / 101)]
   \<and> [Fin 50, Fin (10000 / 101), Fin (10000 / 101)] ! 2 \<noteq> Fin 100"
  using example_rising_avgs example_rising_rsi by simp

text \<open>
  Claim C7, amended: where the average loss is exactly \<open>0\<close> (it compares equal to
  \<open>0.0\<close>), \<open>RS\<close> is taken to be \<open>100\<close>, and the value written is
  \<open>100 - 100 / 101 = 10000 / 101\<close> (about \<open>99.01\<close>), at the first index \<open>period\<close> as
  well as at every later one.
\<close>

theorem rsi_zero_loss:
  "(is_zero loss \<longrightarrow>
      RS_of gain loss = Fin 100 \<and> RSI_of (RS_of gain loss) = Fin (10000 / 101))
   \<and> (0 < period \<longrightarrow>
        (\<exists>r. RSI prices period = Some r
           \<and> (\<forall>i. nat period \<le> i \<and> i < length prices \<and> is_zero (snd (RSI_avgs period prices i))
                 \<longrightarrow> r ! i = Fin (10000 / 101))))"
proof -
  have e: "RSI_of (Fin 100) = Fin (10000 / 101)"
    by (simp add: RSI_of_def double_eval)
  have z: "RS_of g l = Fin 100" "RSI_of (RS_of g l) = Fin (10000 / 101)" if "is_zero l" for g l
    using that e by (simp_all add: RS_of_def)
  have "\<exists>r. RSI prices period = Some r
           \<and> (\<forall>i. nat period \<le> i \<and> i < length prices \<and> is_zero (snd (RSI_avgs period prices i))
                 \<longrightarrow> r ! i = Fin (10000 / 101))" if p: "0 < period"
  proof -
    from p have "0 \<le> period" by simp
    from RSI_char [OF this] obtain r where
      r: "RSI prices period = Some r"
      and v: "\<forall>i<length prices. r ! i = (if i < nat period then Fin 50 else RSI_at period prices i)"
      by blast
    have "r ! i = Fin (10000 / 101)"
      if "nat period \<le> i" "i < length prices" "is_zero (snd (RSI_avgs period prices i))" for i
    proof -
      have "RSI_at period prices i = Fin (10000 / 101)"
        using z(2) [OF that(3)] by (simp add: RSI_at_def split_beta)
      then show ?thesis using that v by simp
    qed
    with r show ?thesis by blast
  qed
  with z show ?thesis by blast
qed

theorem rsi_zero_loss_witness:
  "is_zero (Fin 0) \<and> RS_of (Fin 3) (Fin 0) = Fin 100
   \<and> RSI_of (RS_of (Fin 3) (Fin 0)) = Fin (10000 / 101)
   \<and> (0::int) < 1 \<and> nat 1 \<le> (2::nat) \<and> 2 < length [Fin 1, Fin 2, Fin 3]
   \<and> is_zero (snd (RSI_avgs 1 [Fin 1, Fin 2, Fin 3] 2))
   \<and> (\<exists>r. RSI [Fin 1, Fin 2, Fin 3] 1 = Some r \<and> r ! 2 = Fin (10000 / 101))"
proof -
  have a: "is_zero (snd (RSI_avgs 1 [Fin 1, Fin 2, Fin 3] 2))"
    by (rule example_rising_avgs)
  from rsi_zero_loss [of "Fin 0" "Fin 3" 1 "[Fin 1, Fin 2, Fin 3]"] obtain r where
    z: "RS_of (Fin 3) (Fin 0) = Fin 100" "RSI_of (RS_of (Fin 3) (Fin 0)) = Fin (10000 / 101)"
    and "RSI [Fin 1, Fin 2, Fin 3] 1 = Some r"
    "\<forall>i. nat 1 \<le> i \<and> i < length [Fin 1, Fin 2, Fin 3]
         \<and> is_zero (snd (RSI_avgs 1 [Fin 1, Fin 2, Fin 3] i))
         \<longrightarrow> r ! i = Fin (10000 / 101)"
    by auto
  with a have "RSI [Fin 1, Fin 2, Fin 3] 1 = Some r \<and> r ! 2 = Fin (10000 / 101)"
    by simp
  with a z show ?thesis by auto
qed

subsection \<open>The lengths of the indicator vectors\<close>

text \<open>
  Every vector that an indicator returns has one entry per price, so the loop of \<open>run\<close>
  reads them within range at every index below the number of bars.
\<close>

lemma fold_update_snd_length:
  "length (snd (fold (\<lambda>i (s, xs). (f i s, xs[i := g i s])) is (s0, xs0))) = length xs0"
  by (induction "is" arbitrary: s0 xs0) simp_all

lemma fold_update_length:
  "length (fold (\<lambda>i xs. xs[i := h i xs]) is xs0) = length xs0"
  by (induction "is" arbitrary: xs0) simp_all

lemma SMA_length: "SMA prices p = Some r \<Longrightarrow> length r = length prices"
  by (auto simp: SMA_def Let_def fold_update_snd_length split: if_splits)

lemma EMA_length: "EMA prices p = Some r \<Longrightarrow> length r = length prices"
  by (auto simp: EMA_def Let_def fold_update_length split: if_splits)

lemma RSI_length:
  assumes "RSI prices p = Some r"
  shows "length r = length prices"
proof (cases "0 \<le> p")
  case True
  from RSI_char [OF True, of prices] assms show ?thesis by auto
next
  case False
  with assms show ?thesis by (auto simp: RSI_def Let_def split: if_splits)
qed

lemma MACD_length:
  "MACD prices f s g = Some m \<Longrightarrow>
   length (macd m) = length prices \<and> length (signal m) = length prices
   \<and> length (histogram m) = length prices"
  by (auto simp: MACD_def Let_def split: bind_splits dest: EMA_length)

lemma BollingerBand_length:
  "BollingerBand prices p n = Some bb \<Longrightarrow>
   length (upper bb) = length prices \<and> length (middle bb) = length prices
   \<and> length (lower bb) = length prices"
  by (auto simp: BollingerBand_def split: bind_splits dest: SMA_length)

section \<open>Properties of the simulation engine\<close>

subsection \<open>Loops, fills and transitions\<close>

lemma for_loop_invariant:
  assumes "for_loop is body s = Some s'" and "P s"
    and "\<And>i t t'. P t \<Longrightarrow> body i t = Some t' \<Longrightarrow> P t'"
  shows "P s'"
  using assms(1,2)
proof (induction "is" arbitrary: s)
  case Nil
  then show ?case by simp
next
  case (Cons i "is")
  then show ?case
    by (auto split: option.splits intro: assms(3))
qed

lemma for_loop_total:
  assumes "P s" and "\<And>i t. i \<in> set is \<Longrightarrow> P t \<Longrightarrow> \<exists>t'. body i t = Some t' \<and> P t'"
  shows "\<exists>s'. for_loop is body s = Some s' \<and> P s'"
  using assms
proof (induction "is" arbitrary: s)
  case Nil
  then show ?case by simp
next
  case (Cons i "is")
  from Cons.prems(2) [of i s] Cons.prems(1) obtain t where
    t: "body i s = Some t" "P t" by auto
  from Cons.IH [OF t(2)] Cons.prems(2) obtain s' where "for_loop is body t = Some s'" "P s'"
    by auto
  with t show ?case by simp
qed

lemma for_loop_append:
  "for_loop (xs @ ys) body s = Option.bind (for_loop xs body s) (for_loop ys body)"
  by (induction xs arbitrary: s) (auto split: option.splits)

lemma not_None_bind:
  "Option.bind x f \<noteq> None \<Longrightarrow> \<exists>y z. x = Some y \<and> f y = Some z"
  by (cases x) auto

lemma map_option_Some_ex: "map_option f x = Some v \<Longrightarrow> \<exists>y. x = Some y \<and> f y = v"
  by (cases x) auto

lemma fillPrice_Some:
  "fillPrice d idx = Some p \<Longrightarrow>
   idx < length d \<and>
   p = (if idx + 1 < length d \<and> openPrice (d ! (idx + 1)) > Fin 0 then openPrice (d ! (idx + 1))
        else close (d ! idx))"
  by (auto simp: fillPrice_def split: if_splits)

lemma fillPrice_total:
  "idx < length d \<Longrightarrow>
   fillPrice d idx =
     Some (if idx + 1 < length d \<and> openPrice (d ! (idx + 1)) > Fin 0
           then openPrice (d ! (idx + 1)) else close (d ! idx))"
  by (simp add: fillPrice_def)

lemma fillPrice_last:
  "d \<noteq> [] \<Longrightarrow> fillPrice d (length d - 1) = Some (close (last d))"
  by (simp add: fillPrice_def last_conv_nth)

text \<open>What an entry and an exit return.\<close>

lemma enterPosition_Some:
  assumes "enterPosition b idx = Some b'"
  obtains price f where
    "fillPrice (data b) idx = Some price"
    "f = (if useKellyCriterion b \<and> length (trades b) \<ge> 5 then calculateKellyFraction b else Fin 1)"
    "b' = b\<lparr>currentShares := (currentCash b - currentCash b * commissionRate b) * f / price,
            currentCash := Fin 0, inPosition := True,
            trades := trades b @
              [\<lparr>entryDate = date (data b ! idx), exitDate = [], entryPrice = price,
                exitPrice = Fin 0,
                shares = (currentCash b - currentCash b * commissionRate b) * f / price,
                pnl = Fin 0, returnPct = Fin 0\<rparr>]\<rparr>"
  using assms
  by (auto simp: enterPosition_def Let_def split: bind_splits if_splits)

lemma exitPosition_Some:
  assumes "exitPosition b idx = Some b'"
  obtains price where
    "fillPrice (data b) idx = Some price"
    "trades b \<noteq> []"
    "b' = b\<lparr>currentCash := currentShares b * price - currentShares b * price * commissionRate b,
            currentShares := Fin 0, inPosition := False,
            trades := butlast (trades b) @
              [(last (trades b))\<lparr>exitDate := date (data b ! idx), exitPrice := price,
                 pnl := currentShares b * price - currentShares b * price * commissionRate b
                        - shares (last (trades b)) * entryPrice (last (trades b)),
                 returnPct := (currentShares b * price - currentShares b * price * commissionRate b
                        - shares (last (trades b)) * entryPrice (last (trades b)))
                     / (shares (last (trades b)) * entryPrice (last (trades b))) * Fin 100\<rparr>]\<rparr>"
  using assms
  by (auto simp: exitPosition_def Let_def split: bind_splits if_splits)

lemma enterPosition_total:
  "idx < length (data b) \<Longrightarrow> \<exists>b'. enterPosition b idx = Some b'"
  by (simp add: enterPosition_def fillPrice_def Let_def)

lemma exitPosition_total:
  "idx < length (data b) \<Longrightarrow> trades b \<noteq> [] \<Longrightarrow> \<exists>b'. exitPosition b idx = Some b'"
  by (simp add: exitPosition_def fillPrice_def Let_def)

lemma enterPosition_fill:
  assumes "enterPosition b i = Some b'"
  shows "i < length (data b) \<and> fillPrice (data b) i = Some (entryPrice (last (trades b')))"
  using assms by (elim enterPosition_Some) (auto dest: fillPrice_Some)

lemma exitPosition_fill:
  assumes "exitPosition b i = Some b'"
  shows "i < length (data b) \<and> fillPrice (data b) i = Some (exitPrice (last (trades b')))"
  using assms by (elim exitPosition_Some) (auto dest: fillPrice_Some)

lemma enterPosition_shares:
  assumes "enterPosition b i = Some b'"
  shows "currentShares b' =
           (currentCash b - currentCash b * commissionRate b)
           * (if useKellyCriterion b \<and> 5 \<le> length (trades b) then calculateKellyFraction b
              else Fin 1)
           / entryPrice (last (trades b'))
       \<and> shares (last (trades b')) = currentShares b'"
  using assms by (elim enterPosition_Some) auto

lemma exitPosition_cash:
  assumes "exitPosition b i = Some b'"
  shows "currentCash b' = currentShares b * exitPrice (last (trades b'))
                          - currentShares b * exitPrice (last (trades b')) * commissionRate b"
  using assms by (elim exitPosition_Some) auto

lemma enterPosition_ledger:
  "enterPosition b i = Some b' \<Longrightarrow> inPosition b' \<and> currentCash b' = Fin 0 \<and> trades b' \<noteq> []"
  by (erule enterPosition_Some) simp

lemma exitPosition_ledger:
  "exitPosition b i = Some b' \<Longrightarrow> \<not> inPosition b' \<and> currentShares b' = Fin 0"
  by (erule exitPosition_Some) simp

lemma checkStopLoss_total: "i < length (data b) \<Longrightarrow> \<exists>s. checkStopLoss b i = Some s"
  by (auto simp: checkStopLoss_def Let_def)

lemma checkTakeProfit_total: "i < length (data b) \<Longrightarrow> \<exists>s. checkTakeProfit b i = Some s"
  by (auto simp: checkTakeProfit_def Let_def)

text \<open>A round of the loop changes nothing, or is one entry, or is one exit, at its own index.\<close>

lemma run_signals_cases:
  assumes "run_signals closes shortMA longMA rsi macdData bb i b = Some b'"
  shows "b' = b \<or> (\<not> inPosition b \<and> enterPosition b i = Some b') \<or> (inPosition b \<and> exitPosition b i = Some b')"
  using assms
  by (auto simp: run_signals_def Let_def split: if_splits prod.splits)

lemma run_body_cases:
  assumes "run_body closes shortMA longMA rsi macdData bb i b = Some b'"
  shows "b' = b \<or> (\<not> inPosition b \<and> enterPosition b i = Some b') \<or> (inPosition b \<and> exitPosition b i = Some b')"
  using assms run_signals_cases [of closes shortMA longMA rsi macdData bb i b b']
  by (auto simp: run_body_def split: if_splits bind_splits)

lemma run_signals_total:
  assumes "i < length (data b)" and "inPosition b \<longrightarrow> trades b \<noteq> []"
  shows "\<exists>b'. run_signals closes shortMA longMA rsi macdData bb i b = Some b'"
  using assms enterPosition_total [of i b] exitPosition_total [of i b]
  by (auto simp: run_signals_def Let_def split: prod.splits)

lemma run_body_total:
  assumes "i < length (data b)" and "inPosition b \<longrightarrow> trades b \<noteq> []"
  shows "\<exists>b'. run_body closes shortMA longMA rsi macdData bb i b = Some b'"
proof (cases "inPosition b")
  case False
  with run_signals_total [OF assms] show ?thesis by (simp add: run_body_def)
next
  case True
  with assms have t: "trades b \<noteq> []" by simp
  from checkStopLoss_total [OF assms(1)] obtain s where s: "checkStopLoss b i = Some s" by blast
  from checkTakeProfit_total [OF assms(1)] obtain p where p: "checkTakeProfit b i = Some p" by blast
  from exitPosition_total [OF assms(1) t] obtain x where x: "exitPosition b i = Some x" by blast
  from run_signals_total [OF assms] obtain y where
    y: "run_signals closes shortMA longMA rsi macdData bb i b = Some y" by blast
  from True s p x y show ?thesis by (simp add: run_body_def)
qed

lemma enterPosition_frame:
  "enterPosition b i = Some b' \<Longrightarrow>
   data b' = data b \<and> longPeriod b' = longPeriod b \<and> commissionRate b' = commissionRate b"
  by (erule enterPosition_Some) simp

lemma exitPosition_frame:
  "exitPosition b i = Some b' \<Longrightarrow>
   data b' = data b \<and> longPeriod b' = longPeriod b \<and> commissionRate b' = commissionRate b"
  by (erule exitPosition_Some) simp

lemma run_body_frame:
  "run_body closes shortMA longMA rsi macdData bb i b = Some b' \<Longrightarrow>
   data b' = data b \<and> longPeriod b' = longPeriod b \<and> commissionRate b' = commissionRate b"
  using run_body_cases [of closes shortMA longMA rsi macdData bb i b b']
    enterPosition_frame [of b i b'] exitPosition_frame [of b i b']
  by auto

lemma run_body_loop_frame:
  assumes "for_loop is (run_body closes shortMA longMA rsi macdData bb) b = Some b'"
  shows "data b' = data b \<and> longPeriod b' = longPeriod b \<and> commissionRate b' = commissionRate b"
  by (rule for_loop_invariant [OF assms, where
        P = "\<lambda>s. data s = data b \<and> longPeriod s = longPeriod b \<and> commissionRate s = commissionRate b"])
     (auto dest: run_body_frame)

lemma run_body_ledger:
  "run_body closes shortMA longMA rsi macdData bb i b = Some b' \<Longrightarrow> flat_or_long b \<Longrightarrow> flat_or_long b'"
  using run_body_cases [of closes shortMA longMA rsi macdData bb i b b']
    enterPosition_ledger [of b i b'] exitPosition_ledger [of b i b']
  by (auto simp: flat_or_long_def)

lemma run_body_loop_ledger:
  assumes "for_loop is (run_body closes shortMA longMA rsi macdData bb) b = Some b'" and "flat_or_long b"
  shows "flat_or_long b'"
  by (rule for_loop_invariant [OF assms(1), where P = flat_or_long])
     (auto intro: assms(2) dest: run_body_ledger)

text \<open>The loop of \<open>run\<close> gets through every bar of the series.\<close>

lemma run_body_loop_total:
  assumes "flat_or_long b" and "k \<le> length (data b)"
  shows "\<exists>b'. for_loop [j..<k] (run_body closes shortMA longMA rsi macdData bb) b = Some b'"
proof -
  let ?P = "\<lambda>s. data s = data b \<and> flat_or_long s"
  have "\<exists>t'. run_body closes shortMA longMA rsi macdData bb i t = Some t' \<and> ?P t'"
    if "i \<in> set [j..<k]" and "?P t" for i t
  proof -
    from that assms(2) have i: "i < length (data t)" by simp
    from that have "inPosition t \<longrightarrow> trades t \<noteq> []" by (simp add: flat_or_long_def)
    from run_body_total [OF i this] obtain t' where
      t: "run_body closes shortMA longMA rsi macdData bb i t = Some t'" by blast
    from run_body_frame [OF t] run_body_ledger [OF t] that show ?thesis using t by simp
  qed
  from for_loop_total [of ?P b "[j..<k]" "run_body closes shortMA longMA rsi macdData bb", OF _ this]
    assms(1)
  show ?thesis by blast
qed

text \<open>The indicators return for the periods that \<open>run\<close> passes.\<close>

lemma SMA_total: "0 < p \<Longrightarrow> \<exists>r. SMA prices p = Some r"
  by (simp add: SMA_def Let_def)

lemma EMA_total: "0 < p \<Longrightarrow> \<exists>r. EMA prices p = Some r"
  by (simp add: EMA_def Let_def)

lemma RSI_total: "0 \<le> p \<Longrightarrow> \<exists>r. RSI prices p = Some r"
  using RSI_char [of p prices] by blast

lemma MACD_total: "\<exists>r. MACD prices 12 26 9 = Some r"
proof -
  from EMA_total [of 12 prices] obtain f where f: "EMA prices 12 = Some f" by auto
  from EMA_total [of 26 prices] obtain s where s: "EMA prices 26 = Some s" by auto
  from EMA_total [of 9 "map (\<lambda>i. f ! i - s ! i) [0..<length prices]"] obtain g where
    "EMA (map (\<lambda>i. f ! i - s ! i) [0..<length prices]) 9 = Some g" by auto
  with f s show ?thesis by (simp add: MACD_def Let_def)
qed

lemma BollingerBand_total: "\<exists>r. BollingerBand prices 20 numStdDev = Some r"
proof -
  from SMA_total [of 20 prices] obtain m where "SMA prices 20 = Some m" by auto
  then show ?thesis by (simp add: BollingerBand_def StdDev_def)
qed

lemma run_upto_Some_iff:
  "run_upto b k = Some st \<longleftrightarrow>
     (\<exists>shortMA longMA rsi macdData bb.
         (if useEMA b then EMA (map close (data b)) (shortPeriod b)
          else SMA (map close (data b)) (shortPeriod b)) = Some shortMA
       \<and> (if useEMA b then EMA (map close (data b)) (longPeriod b)
          else SMA (map close (data b)) (longPeriod b)) = Some longMA
       \<and> (if useRSI b then RSI (map close (data b)) 14 else Some []) = Some rsi
       \<and> (if useMACD b then MACD (map close (data b)) 12 26 9
          else Some \<lparr>macd = [], signal = [], histogram = []\<rparr>) = Some macdData
       \<and> (if useBollinger b then BollingerBand (map close (data b)) 20 (Fin 2)
          else Some \<lparr>upper = [], middle = [], lower = []\<rparr>) = Some bb
       \<and> for_loop [size_t_of (longPeriod b)..<k]
            (run_body (map close (data b)) shortMA longMA rsi macdData bb) b = Some st)"
  unfolding run_upto_def Let_def bind_eq_Some_conv by blast

lemma run_upto_ledger:
  assumes "run_upto b k = Some b'" and "flat_or_long b"
  shows "flat_or_long b'"
  using assms unfolding run_upto_Some_iff by (auto dest: run_body_loop_ledger)

lemma run_upto_frame:
  assumes "run_upto b k = Some b'"
  shows "data b' = data b \<and> longPeriod b' = longPeriod b \<and> commissionRate b' = commissionRate b"
  using assms unfolding run_upto_Some_iff by (auto dest: run_body_loop_frame)

lemma run_upto_total:
  assumes "0 < shortPeriod b" and "0 < longPeriod b" and "flat_or_long b"
    and "k \<le> length (data b)"
  shows "\<exists>st. run_upto b k = Some st"
proof -
  obtain shortMA where 1: "(if useEMA b then EMA (map close (data b)) (shortPeriod b)
          else SMA (map close (data b)) (shortPeriod b)) = Some shortMA"
    using SMA_total [OF assms(1)] EMA_total [OF assms(1)] by (cases "useEMA b") auto
  obtain longMA where 2: "(if useEMA b then EMA (map close (data b)) (longPeriod b)
          else SMA (map close (data b)) (longPeriod b)) = Some longMA"
    using SMA_total [OF assms(2)] EMA_total [OF assms(2)] by (cases "useEMA b") auto
  obtain rsi where 3: "(if useRSI b then RSI (map close (data b)) 14 else Some []) = Some rsi"
    using RSI_total [of 14 "map close (data b)"] by (cases "useRSI b") auto
  obtain macdData where 4: "(if useMACD b then MACD (map close (data b)) 12 26 9
          else Some \<lparr>macd = [], signal = [], histogram = []\<rparr>) = Some macdData"
    using MACD_total [of "map close (data b)"] by (cases "useMACD b") auto
  obtain bb where 5: "(if useBollinger b then BollingerBand (map close (data b)) 20 (Fin 2)
          else Some \<lparr>upper = [], middle = [], lower = []\<rparr>) = Some bb"
    using BollingerBand_total [of "map close (data b)" "Fin 2"] by (cases "useBollinger b") auto
  from run_body_loop_total [OF assms(3,4)] obtain st where
    "for_loop [size_t_of (longPeriod b)..<k]
       (run_body (map close (data b)) shortMA longMA rsi macdData bb) b = Some st"
    by blast
  with 1 2 3 4 5 show ?thesis unfolding run_upto_Some_iff by blast
qed

lemma run_ledger:
  assumes "run b = Some b'" and "flat_or_long b"
  shows "flat_or_long b'"
  using assms run_upto_ledger [of b "length (data b)"] exitPosition_ledger
  by (auto simp: run_def run_loop_def flat_or_long_def split: if_splits bind_splits)

text \<open>
  \<open>run\<close> returns, and leaves no position open when it has gone through the loop: a
  position that the loop leaves open is sold at the last bar.
\<close>

lemma run_total:
  assumes "0 < shortPeriod b" and "0 < longPeriod b" and "flat_or_long b"
  shows "\<exists>bf. run b = Some bf
           \<and> (\<not> length (data b) < size_t_of (longPeriod b + 1) \<longrightarrow>
                \<not> inPosition bf
              \<and> (\<exists>bl. run_loop b = Some bl
                    \<and> (if inPosition bl then exitPosition bl (length (data b) - 1) = Some bf
                       else bf = bl)))"
proof (cases "length (data b) < size_t_of (longPeriod b + 1)")
  case True
  then show ?thesis by (simp add: run_def)
next
  case False
  with assms(2) have n: "data b \<noteq> []" by (auto simp: size_t_of_pos)
  from run_upto_total [OF assms, of "length (data b)"] obtain bl where
    l: "run_loop b = Some bl" by (auto simp: run_loop_def)
  then have u: "run_upto b (length (data b)) = Some bl" by (simp add: run_loop_def)
  from run_upto_frame [OF u] have d: "data bl = data b" by simp
  from run_upto_ledger [OF u assms(3)] have f: "flat_or_long bl" .
  show ?thesis
  proof (cases "inPosition bl")
    case p: False
    with False l show ?thesis by (simp add: run_def)
  next
    case p: True
    with f have "trades bl \<noteq> []" by (simp add: flat_or_long_def)
    with n d exitPosition_total [of "length (data b) - 1" bl] obtain bf where
      x: "exitPosition bl (length (data b) - 1) = Some bf" by auto
    with False l p d exitPosition_ledger [OF x] show ?thesis by (simp add: run_def)
  qed
qed

subsection \<open>The example runs\<close>

lemmas run_eval =
  example_bar_def Backtester_new_def size_t_of_def upt_rec ledger_def Let_def
  run_def run_loop_def run_upto_def SMA_def run_body_def run_signals_def
  enterPosition_def exitPosition_def fillPrice_def checkStopLoss_def checkTakeProfit_def
  calculateKellyFraction_def kelly_tally_def double_eval

lemma example_kelly_12:
  "map_option ledger (run_upto example_kelly 12) = Some (Fin (107811 / 100), Fin 0, False)"
  by (simp add: example_kelly_def example_kelly_bars_def run_eval)

lemma example_kelly_13:
  "map_option ledger (run_upto example_kelly 13) = Some (Fin 0, Fin (107811 / 10000), True)"
  by (simp add: example_kelly_def example_kelly_bars_def run_eval)

lemma example_losing_run:
  "map_option (\<lambda>b. (ledger b, pnl (last (trades b)), returnPct (last (trades b))))
     (run example_losing) = Some ((Fin 0, Fin 0, False), Fin 0, NaN)"
  by (simp add: example_losing_def example_losing_bars_def run_eval)

lemma example_zero_close_run:
  "map_option ledger (run example_zero_close) = Some (Fin 0, Fin 0, False)"
  by (simp add: example_zero_close_def example_zero_close_bars_def run_eval)

lemma example_losing_13:
  "map_option ledger (run_upto example_losing 13) = Some (Fin 0, Fin 0, True)"
  by (simp add: example_losing_def example_losing_bars_def run_eval)

lemma example_kelly_12k:
  "map_option calculateKellyFraction (run_upto example_kelly 12) = Some (Fin (1 / 10))"
  by (simp add: example_kelly_def example_kelly_bars_def run_eval)

lemma example_kelly_12e:
  "map_option ledger (Option.bind (run_upto example_kelly 12) (\<lambda>b. enterPosition b 12))
     = Some (Fin 0, Fin (107811 / 10000), True)"
  by (simp add: example_kelly_def example_kelly_bars_def run_eval)

lemma example_kelly_12t:
  "map_option (\<lambda>b. (useKellyCriterion b, length (trades b), length (data b)))
     (run_upto example_kelly 12) = Some (True, 5, 14)"
  by (simp add: example_kelly_def example_kelly_bars_def run_eval)

lemma example_kelly_run:
  "map_option ledger (run example_kelly) = Some (Fin (107811 / 1000), Fin 0, False)"
  by (simp add: example_kelly_def example_kelly_bars_def run_eval)

lemma example_open_run:
  "map_option ledger (run example_open) = Some (Fin (998001 / 1000), Fin 0, False)"
  by (simp add: example_open_def example_open_bars_def run_eval)

lemma example_open_loop:
  "run_loop example_open
     = run_body (map close example_open_bars) [Fin 12, Fin 8, Fin 12] [Fin 0, Fin 10, Fin 10] []
         \<lparr>macd = [], signal = [], histogram = []\<rparr> \<lparr>upper = [], middle = [], lower = []\<rparr>
         2 example_open"
  by (simp add: example_open_def example_open_bars_def example_bar_def Backtester_new_def
      size_t_of_def upt_rec run_loop_def run_upto_def SMA_def Let_def double_eval
      split: option.split)

lemma example_open_entry:
  "map_option ledger
     (run_body (map close example_open_bars) [Fin 12, Fin 8, Fin 12] [Fin 0, Fin 10, Fin 10] []
         \<lparr>macd = [], signal = [], histogram = []\<rparr> \<lparr>upper = [], middle = [], lower = []\<rparr>
         2 example_open) = Some (Fin 0, Fin (333 / 4), True)"
  by (simp add: example_open_def example_open_bars_def run_eval)

lemmas example_fields =
  example_kelly_def example_open_def example_losing_def example_zero_close_def example_flat_def
  Backtester_new_def

lemma example_ledgers:
  "flat_or_long example_kelly" "flat_or_long example_open"
  by (simp_all add: example_fields flat_or_long_def)

lemma Backtester_new_ledger:
  "flat_or_long (Backtester_new d shortMA longMA capital rsi ema mcd boll stopLoss takeProfit commission kelly)"
  by (simp add: flat_or_long_def Backtester_new_def)

subsection \<open>Too few bars\<close>

text \<open>
  Claim C3. When the series has fewer than \<open>longPeriod + 1\<close> bars, \<open>run\<close> on the freshly
  constructed engine returns at once: the object is returned as it was constructed, so
  the trade log is empty and the ledger is the initial one (cash equal to the initial
  capital, no shares, not in a position).
\<close>

theorem run_insufficient_data:
  assumes "int (length d) < longMA + 1"
  shows "run (Backtester_new d shortMA longMA capital rsi ema mcd boll stopLoss takeProfit commission kelly)
           = Some (Backtester_new d shortMA longMA capital rsi ema mcd boll stopLoss takeProfit commission kelly)
       \<and> trades (Backtester_new d shortMA longMA capital rsi ema mcd boll stopLoss takeProfit commission kelly) = []
       \<and> ledger (Backtester_new d shortMA longMA capital rsi ema mcd boll stopLoss takeProfit commission kelly)
           = (capital, Fin 0, False)"
proof -
  from assms have "0 \<le> longMA + 1" by linarith
  with assms have "length d < size_t_of (longMA + 1)"
    by (simp add: size_t_of_pos)
  then show ?thesis
    by (simp add: run_def Backtester_new_def ledger_def)
qed

theorem run_insufficient_data_witness:
  "int (length example_open_bars) < 5 + 1
   \<and> run (Backtester_new example_open_bars 2 5 (Fin 1000) False False False False
            (Fin 0) (Fin 0) (Fin (1 / 1000)) False)
       = Some (Backtester_new example_open_bars 2 5 (Fin 1000) False False False False
            (Fin 0) (Fin 0) (Fin (1 / 1000)) False)
   \<and> trades (Backtester_new example_open_bars 2 5 (Fin 1000) False False False False
            (Fin 0) (Fin 0) (Fin (1 / 1000)) False) = []
   \<and> ledger (Backtester_new example_open_bars 2 5 (Fin 1000) False False False False
            (Fin 0) (Fin 0) (Fin (1 / 1000)) False)
       = (Fin 1000, Fin 0, False)"
  using run_insufficient_data [of example_open_bars 5 2 "Fin 1000" False False False False
      "Fin 0" "Fin 0" "Fin (1 / 1000)" False]
  by (simp add: example_open_bars_def)

subsection \<open>The price of a fill\<close>

text \<open>
  Claim C4. An entry or an exit at a bar \<open>i\<close> of the series is carried out, and fills at
  the open of bar \<open>i + 1\<close> when that bar exists and its open is positive, and at the
  close of bar \<open>i\<close> otherwise: that price is recorded in the trade, the shares bought are
  the committed cash divided by it, and the proceeds of a sale are the shares times it,
  less the commission. A round of the loop at index \<open>i\<close> is carried out as well, and
  every transition that it makes is such an entry or exit at \<open>i\<close> (the risk exits and the
  signal exit are all \<open>exitPosition b i\<close>). With positive periods and enough bars, \<open>run\<close>
  gets through its loop and returns out of a position: a position that is open after the
  loop is closed by \<open>exitPosition\<close> at the last index, hence at the close of the last bar.
\<close>

theorem fill_price_rule:
  "(i < length (data b) \<longrightarrow>
      (\<exists>b'. enterPosition b i = Some b'
         \<and> entryPrice (last (trades b')) =
             (if i + 1 < length (data b) \<and> openPrice (data b ! (i + 1)) > Fin 0
              then openPrice (data b ! (i + 1)) else close (data b ! i))
         \<and> currentShares b' =
             (currentCash b - currentCash b * commissionRate b)
             * (if useKellyCriterion b \<and> 5 \<le> length (trades b) then calculateKellyFraction b
                else Fin 1)
             / entryPrice (last (trades b'))))
   \<and> (i < length (data b) \<and> trades b \<noteq> [] \<longrightarrow>
      (\<exists>b'. exitPosition b i = Some b'
         \<and> exitPrice (last (trades b')) =
             (if i + 1 < length (data b) \<and> openPrice (data b ! (i + 1)) > Fin 0
              then openPrice (data b ! (i + 1)) else close (data b ! i))
         \<and> currentCash b' = currentShares b * exitPrice (last (trades b'))
                            - currentShares b * exitPrice (last (trades b')) * commissionRate b))
   \<and> (i < length (data b) \<and> flat_or_long b \<longrightarrow>
      (\<exists>b'. run_body closes shortMA longMA rsi macdData bb i b = Some b'
         \<and> (b' = b \<or> enterPosition b i = Some b' \<or> exitPosition b i = Some b')))
   \<and> (0 < shortPeriod b \<and> 0 < longPeriod b \<and> flat_or_long b
       \<and> \<not> length (data b) < size_t_of (longPeriod b + 1) \<longrightarrow>
      (\<exists>bl bf. run_loop b = Some bl \<and> run b = Some bf \<and> \<not> inPosition bf
         \<and> (if inPosition bl
             then exitPosition bl (length (data b) - 1) = Some bf
                \<and> exitPrice (last (trades bf)) = close (last (data b))
             else bf = bl)))"
proof -
  have a: "\<exists>b'. enterPosition b i = Some b'
         \<and> entryPrice (last (trades b')) =
             (if i + 1 < length (data b) \<and> openPrice (data b ! (i + 1)) > Fin 0
              then openPrice (data b ! (i + 1)) else close (data b ! i))
         \<and> currentShares b' =
             (currentCash b - currentCash b * commissionRate b)
             * (if useKellyCriterion b \<and> 5 \<le> length (trades b) then calculateKellyFraction b
                else Fin 1)
             / entryPrice (last (trades b'))"
    if i: "i < length (data b)"
  proof -
    from enterPosition_total [OF i] obtain b' where e: "enterPosition b i = Some b'" by blast
    from enterPosition_fill [OF e] enterPosition_shares [OF e] fillPrice_Some e
    show ?thesis by blast
  qed
  have x: "\<exists>b'. exitPosition b i = Some b'
         \<and> exitPrice (last (trades b')) =
             (if i + 1 < length (data b) \<and> openPrice (data b ! (i + 1)) > Fin 0
              then openPrice (data b ! (i + 1)) else close (data b ! i))
         \<and> currentCash b' = currentShares b * exitPrice (last (trades b'))
                            - currentShares b * exitPrice (last (trades b')) * commissionRate b"
    if i: "i < length (data b)" and t: "trades b \<noteq> []"
  proof -
    from exitPosition_total [OF i t] obtain b' where e: "exitPosition b i = Some b'" by blast
    from exitPosition_fill [OF e] exitPosition_cash [OF e] fillPrice_Some e
    show ?thesis by blast
  qed
  have c: "\<exists>b'. run_body closes shortMA longMA rsi macdData bb i b = Some b'
         \<and> (b' = b \<or> enterPosition b i = Some b' \<or> exitPosition b i = Some b')"
    if i: "i < length (data b)" and f: "flat_or_long b"
  proof -
    from f have "inPosition b \<longrightarrow> trades b \<noteq> []" by (simp add: flat_or_long_def)
    from run_body_total [OF i this] obtain b' where
      r: "run_body closes shortMA longMA rsi macdData bb i b = Some b'" by blast
    from run_body_cases [OF r] r show ?thesis by blast
  qed
  have f: "\<exists>bl bf. run_loop b = Some bl \<and> run b = Some bf \<and> \<not> inPosition bf
         \<and> (if inPosition bl
             then exitPosition bl (length (data b) - 1) = Some bf
                \<and> exitPrice (last (trades bf)) = close (last (data b))
             else bf = bl)"
    if p: "0 < shortPeriod b" "0 < longPeriod b" "flat_or_long b"
      and g: "\<not> length (data b) < size_t_of (longPeriod b + 1)"
  proof -
    from run_total [OF p] g obtain bl bf where
      r: "run b = Some bf" "\<not> inPosition bf" "run_loop b = Some bl"
      and e: "if inPosition bl then exitPosition bl (length (data b) - 1) = Some bf else bf = bl"
      by blast
    from r(3) have d: "data bl = data b"
      using run_upto_frame [of b "length (data b)" bl] by (simp add: run_loop_def)
    have "exitPrice (last (trades bf)) = close (last (data b))" if "inPosition bl"
    proof -
      from that e have x: "exitPosition bl (length (data b) - 1) = Some bf" by simp
      from exitPosition_fill [OF x] d have "data b \<noteq> []" by auto
      from fillPrice_last [OF this] exitPosition_fill [OF x] d show ?thesis by simp
    qed
    with r e show ?thesis by auto
  qed
  from a x c f show ?thesis by blast
qed

theorem fill_price_rule_witness:
  "\<exists>b1 b2 b3 b4.
      2 < length (data example_kelly)
    \<and> enterPosition example_kelly 2 = Some b1 \<and> entryPrice (last (trades b1)) = Fin 10
    \<and> currentShares b1 = Fin 100
    \<and> 3 < length (data b1) \<and> trades b1 \<noteq> []
    \<and> exitPosition b1 3 = Some b2 \<and> exitPrice (last (trades b2)) = Fin 11
    \<and> currentCash b2 = Fin 1100
    \<and> 2 < length (data example_open) \<and> flat_or_long example_open
    \<and> run_body (map close example_open_bars) [Fin 12, Fin 8, Fin 12] [Fin 0, Fin 10, Fin 10] []
         \<lparr>macd = [], signal = [], histogram = []\<rparr> \<lparr>upper = [], middle = [], lower = []\<rparr>
         2 example_open = Some b3
    \<and> (b3 = example_open \<or> enterPosition example_open 2 = Some b3
         \<or> exitPosition example_open 2 = Some b3)
    \<and> 0 < shortPeriod example_open \<and> 0 < longPeriod example_open
    \<and> \<not> length (data example_open) < size_t_of (longPeriod example_open + 1)
    \<and> run_loop example_open = Some b3 \<and> inPosition b3
    \<and> run example_open = Some b4 \<and> \<not> inPosition b4
    \<and> exitPosition b3 (length (data example_open) - 1) = Some b4
    \<and> exitPrice (last (trades b4)) = Fin 12"
proof -
  let ?body = "run_body (map close example_open_bars) [Fin 12, Fin 8, Fin 12]
         [Fin 0, Fin 10, Fin 10] []
         \<lparr>macd = [], signal = [], histogram = []\<rparr> \<lparr>upper = [], middle = [], lower = []\<rparr>"
  have d: "data example_kelly = example_kelly_bars" "data example_open = example_open_bars"
    "longPeriod example_open = 2" "shortPeriod example_open = 1"
    "currentCash example_kelly = Fin 1000"
    "commissionRate example_kelly = Fin 0" "trades example_kelly = []"
    by (simp_all add: example_fields)
  have h1: "2 < length (data example_kelly)"
    by (simp add: d example_kelly_bars_def)
  from h1 fill_price_rule [where b = example_kelly and i = 2] obtain b1 where
    e: "enterPosition example_kelly 2 = Some b1"
    and p1: "entryPrice (last (trades b1)) =
             (if 2 + 1 < length (data example_kelly)
                  \<and> openPrice (data example_kelly ! (2 + 1)) > Fin 0
              then openPrice (data example_kelly ! (2 + 1)) else close (data example_kelly ! 2))"
    and s1: "currentShares b1 =
             (currentCash example_kelly - currentCash example_kelly * commissionRate example_kelly)
             * (if useKellyCriterion example_kelly \<and> 5 \<le> length (trades example_kelly)
                then calculateKellyFraction example_kelly else Fin 1)
             / entryPrice (last (trades b1))"
    by blast
  from p1 have 1: "entryPrice (last (trades b1)) = Fin 10"
    by (simp add: d example_kelly_bars_def example_bar_def double_eval)
  from s1 1 have 2: "currentShares b1 = Fin 100"
    by (simp add: d double_eval)
  from e have f1: "data b1 = example_kelly_bars" "commissionRate b1 = Fin 0" "trades b1 \<noteq> []"
    by (auto elim: enterPosition_Some simp: d)
  have h2: "3 < length (data b1)"
    by (simp add: f1 example_kelly_bars_def)
  from h2 f1 fill_price_rule [where b = b1 and i = 3] obtain b2 where
    x: "exitPosition b1 3 = Some b2"
    and p2: "exitPrice (last (trades b2)) =
             (if 3 + 1 < length (data b1) \<and> openPrice (data b1 ! (3 + 1)) > Fin 0
              then openPrice (data b1 ! (3 + 1)) else close (data b1 ! 3))"
    and c2: "currentCash b2 = currentShares b1 * exitPrice (last (trades b2))
                            - currentShares b1 * exitPrice (last (trades b2)) * commissionRate b1"
    by blast
  from p2 have 3: "exitPrice (last (trades b2)) = Fin 11"
    by (simp add: f1 example_kelly_bars_def example_bar_def double_eval)
  from c2 2 3 have 4: "currentCash b2 = Fin 1100"
    by (simp add: f1 double_eval)
  have h3: "2 < length (data example_open)"
    by (simp add: d example_open_bars_def)
  note f = fill_price_rule [where b = example_open and i = 2
      and closes = "map close example_open_bars" and shortMA = "[Fin 12, Fin 8, Fin 12]"
      and longMA = "[Fin 0, Fin 10, Fin 10]" and rsi = "[]"
      and macdData = "\<lparr>macd = [], signal = [], histogram = []\<rparr>"
      and bb = "\<lparr>upper = [], middle = [], lower = []\<rparr>"]
  from h3 example_ledgers(2) f obtain b3 where
    s: "?body 2 example_open = Some b3"
    and 5: "b3 = example_open \<or> enterPosition example_open 2 = Some b3
         \<or> exitPosition example_open 2 = Some b3"
    by blast
  from s example_open_entry have l3: "ledger b3 = (Fin 0, Fin (333 / 4), True)" by simp
  have g: "\<not> length (data example_open) < size_t_of (longPeriod example_open + 1)"
    "0 < shortPeriod example_open" "0 < longPeriod example_open"
    by (simp_all add: d example_open_bars_def size_t_of_def)
  have l: "run_loop example_open = Some b3"
    using s by (simp add: example_open_loop)
  have p: "inPosition b3" using l3 by (simp add: ledger_def)
  from g example_ledgers(2) f obtain bl b4 where
    r: "run_loop example_open = Some bl" "run example_open = Some b4" "\<not> inPosition b4"
    and q: "if inPosition bl
             then exitPosition bl (length (data example_open) - 1) = Some b4
                \<and> exitPrice (last (trades b4)) = close (last (data example_open))
             else b4 = bl"
    by blast
  from r(1) l have "bl = b3" by simp
  with q p have 6: "exitPosition b3 (length (data example_open) - 1) = Some b4"
    "exitPrice (last (trades b4)) = close (last (data example_open))"
    by simp_all
  from 6(2) have 7: "exitPrice (last (trades b4)) = Fin 12"
    by (simp add: d example_open_bars_def example_bar_def)
  from h1 e 1 2 h2 f1(3) x 3 4 h3 example_ledgers(2) s 5 g l p r(2,3) 6(1) 7
  show ?thesis by blast
qed

subsection \<open>The ledger invariant\<close>

text \<open>
  Claim C1, as stated: at every point of a run exactly one of cash and shares is zero
  (\<open>cash == 0 XOR shares == 0\<close>). Both are zero at the end of the run on
  \<open>example_zero_close_bars\<close>, where the position is sold at the close \<open>0\<close> of the last bar.
  Both are zero as well in the run on \<open>example_losing_bars\<close> (all prices positive) once
  the loop has handled bar 12: five trades are closed, one of them a win, the Kelly
  fraction is clamped to \<open>0\<close>, and the sixth entry buys \<open>0\<close> shares and sets the cash to
  \<open>0\<close>; the sale of these \<open>0\<close> shares at the end of the run leaves both at zero.
\<close>

theorem ledger_xor_counterexample:
  "map_option ledger (run example_zero_close) = Some (Fin 0, Fin 0, False)
   \<and> map_option ledger (run_upto example_losing 13) = Some (Fin 0, Fin 0, True)
   \<and> map_option ledger (run example_losing) = Some (Fin 0, Fin 0, False)"
proof -
  from map_option_Some_ex [OF example_losing_run]
  have "map_option ledger (run example_losing) = Some (Fin 0, Fin 0, False)" by auto
  with example_zero_close_run example_losing_13 show ?thesis by simp
qed

text \<open>
  Claim C1, amended: cash and shares are never both nonzero. Every \<open>enterPosition\<close> at a
  bar of the series is carried out and leaves the engine in a position with a cash of
  \<open>0\<close>, whatever fraction of the available cash was committed; every \<open>exitPosition\<close>
  of an engine with a trade in its log is carried out and leaves it flat with \<open>0\<close>
  shares. At every point of a run of a freshly constructed engine, whatever its
  configuration (the loop has handled the bars below any \<open>k\<close>; \<open>run\<close> has returned),
  the cash is \<open>0\<close> in a position and the shares are \<open>0\<close> out of one; and with positive
  periods the run reaches each of these points. Both cash and shares may be zero.
\<close>

theorem ledger_never_both_nonzero:
  "(i < length (data b) \<longrightarrow>
      (\<exists>b'. enterPosition b i = Some b' \<and> inPosition b' \<and> currentCash b' = Fin 0))
   \<and> (i < length (data b) \<and> trades b \<noteq> [] \<longrightarrow>
      (\<exists>b'. exitPosition b i = Some b' \<and> \<not> inPosition b' \<and> currentShares b' = Fin 0))
   \<and> (run_upto (Backtester_new d shortMA longMA capital rsi ema mcd boll stopLoss takeProfit
                   commission kelly) k = Some st
        \<or> run (Backtester_new d shortMA longMA capital rsi ema mcd boll stopLoss takeProfit
                   commission kelly) = Some st
       \<longrightarrow> (currentCash st = Fin 0 \<or> currentShares st = Fin 0)
           \<and> (if inPosition st then currentCash st = Fin 0 else currentShares st = Fin 0))
   \<and> (0 < shortMA \<and> 0 < longMA \<longrightarrow>
        (\<exists>st'. run (Backtester_new d shortMA longMA capital rsi ema mcd boll stopLoss
                   takeProfit commission kelly) = Some st')
      \<and> (k \<le> length d \<longrightarrow>
           (\<exists>st'. run_upto (Backtester_new d shortMA longMA capital rsi ema mcd boll stopLoss
                      takeProfit commission kelly) k = Some st')))"
proof -
  let ?b = "Backtester_new d shortMA longMA capital rsi ema mcd boll stopLoss
                   takeProfit commission kelly"
  have a: "\<exists>b'. enterPosition b i = Some b' \<and> inPosition b' \<and> currentCash b' = Fin 0"
    if "i < length (data b)"
    using enterPosition_total [OF that] enterPosition_ledger by blast
  have x: "\<exists>b'. exitPosition b i = Some b' \<and> \<not> inPosition b' \<and> currentShares b' = Fin 0"
    if "i < length (data b)" "trades b \<noteq> []"
    using exitPosition_total [OF that] exitPosition_ledger by blast
  have l: "(currentCash st = Fin 0 \<or> currentShares st = Fin 0)
         \<and> (if inPosition st then currentCash st = Fin 0 else currentShares st = Fin 0)"
    if "run_upto ?b k = Some st \<or> run ?b = Some st"
  proof -
    from that have "flat_or_long st"
    proof
      assume "run_upto ?b k = Some st"
      then show ?thesis using Backtester_new_ledger by (rule run_upto_ledger)
    next
      assume "run ?b = Some st"
      then show ?thesis using Backtester_new_ledger by (rule run_ledger)
    qed
    then show ?thesis by (auto simp: flat_or_long_def)
  qed
  have r: "\<exists>st'. run ?b = Some st'" if p: "0 < shortMA" "0 < longMA"
  proof -
    from p have "0 < shortPeriod ?b" "0 < longPeriod ?b"
      by (simp_all add: Backtester_new_def)
    from run_total [OF this Backtester_new_ledger] show ?thesis by blast
  qed
  have u: "\<exists>st'. run_upto ?b k = Some st'" if p: "0 < shortMA" "0 < longMA" "k \<le> length d"
  proof -
    from p have "0 < shortPeriod ?b" "0 < longPeriod ?b" "k \<le> length (data ?b)"
      by (simp_all add: Backtester_new_def)
    from run_upto_total [OF this(1,2) Backtester_new_ledger this(3)] show ?thesis .
  qed
  from a x l r u show ?thesis by blast
qed

theorem ledger_never_both_nonzero_witness:
  "\<exists>b1 b2 st st'.
      2 < length (data example_kelly)
    \<and> enterPosition example_kelly 2 = Some b1 \<and> inPosition b1 \<and> currentCash b1 = Fin 0
    \<and> 3 < length (data b1) \<and> trades b1 \<noteq> []
    \<and> exitPosition b1 3 = Some b2 \<and> \<not> inPosition b2 \<and> currentShares b2 = Fin 0
    \<and> (0::int) < 1 \<and> (0::int) < 2 \<and> 13 \<le> length example_kelly_bars
    \<and> run_upto example_kelly 13 = Some st
    \<and> (currentCash st = Fin 0 \<or> currentShares st = Fin 0)
    \<and> run example_kelly = Some st'
    \<and> (currentCash st' = Fin 0 \<or> currentShares st' = Fin 0)"
proof -
  have d: "data example_kelly = example_kelly_bars" "trades example_kelly = []"
    by (simp_all add: example_fields)
  have h1: "2 < length (data example_kelly)"
    by (simp add: d example_kelly_bars_def)
  from h1 ledger_never_both_nonzero [where b = example_kelly and i = 2] obtain b1 where
    e: "enterPosition example_kelly 2 = Some b1" and 1: "inPosition b1" "currentCash b1 = Fin 0"
    by blast
  from e have f1: "data b1 = example_kelly_bars" "trades b1 \<noteq> []"
    by (auto elim: enterPosition_Some simp: d)
  have h2: "3 < length (data b1)"
    by (simp add: f1 example_kelly_bars_def)
  from h2 f1 ledger_never_both_nonzero [where b = b1 and i = 3] obtain b2 where
    x: "exitPosition b1 3 = Some b2" and 2: "\<not> inPosition b2" "currentShares b2 = Fin 0"
    by blast
  have h3: "(0::int) < 1" "(0::int) < 2" "13 \<le> length example_kelly_bars"
    by (simp_all add: example_kelly_bars_def)
  note T = ledger_never_both_nonzero [where d = example_kelly_bars and shortMA = 1 and longMA = 2
      and capital = "Fin 1000" and rsi = False and ema = False and mcd = False and boll = False
      and stopLoss = "Fin 0" and takeProfit = "Fin 0" and commission = "Fin 0" and kelly = True
      and k = 13, unfolded example_kelly_def [symmetric]]
  from h3 T obtain st st' where
    u: "run_upto example_kelly 13 = Some st" and r: "run example_kelly = Some st'"
    by blast
  from u T [where st = st] have 3: "currentCash st = Fin 0 \<or> currentShares st = Fin 0"
    by blast
  from r T [where st = st'] have 4: "currentCash st' = Fin 0 \<or> currentShares st' = Fin 0"
    by blast
  from h1 e 1 h2 f1(2) x 2 h3 u 3 r 4 show ?thesis by blast
qed

subsection \<open>Kelly sizing on entry\<close>

text \<open>The clamp sends every double, a NaN and the infinities too, into \<open>[0, 1]\<close>.\<close>

lemma clamp_range: "\<exists>f. std_max (Fin 0) (std_min x (Fin 1)) = Fin f \<and> 0 \<le> f \<and> f \<le> 1"
  by (cases x) (auto simp: std_max_def std_min_def less_double_def)

lemma kelly_clamped: "\<exists>f. calculateKellyFraction b = Fin f \<and> 0 \<le> f \<and> f \<le> 1"
proof -
  have o: "\<exists>f. Fin 1 = Fin f \<and> 0 \<le> f \<and> f \<le> 1" by simp
  show ?thesis
    unfolding calculateKellyFraction_def Let_def split_beta
    using o clamp_range by (auto split: if_splits)
qed

text \<open>
  Claim C2, as stated: with a Kelly fraction \<open>f < 1\<close>, the share \<open>1 - f\<close> of the
  available cash stays in the ledger as free cash after \<open>enterPosition\<close>. In the run on
  \<open>example_kelly_bars\<close> the engine holds 1078.11 in cash after five trades (three wins
  and two losses of 10 percent each, no commission), the Kelly fraction is \<open>1 / 10\<close>, and
  the entry at bar 12 buys 10.7811 shares at 10, that is a tenth of the cash; the cash
  after it is \<open>0\<close>, not the 970.299 that were not invested.
\<close>

theorem kelly_remainder_counterexample:
  "map_option ledger (run_upto example_kelly 12) = Some (Fin (107811 / 100), Fin 0, False)
   \<and> map_option calculateKellyFraction (run_upto example_kelly 12) = Some (Fin (1 / 10))
   \<and> map_option ledger (Option.bind (run_upto example_kelly 12) (\<lambda>b. enterPosition b 12))
       = Some (Fin 0, Fin (107811 / 10000), True)
   \<and> map_option ledger (run_upto example_kelly 13) = Some (Fin 0, Fin (107811 / 10000), True)
   \<and> (Fin 1 - Fin (1 / 10)) * Fin (107811 / 100) \<noteq> Fin 0"
  using example_kelly_12 example_kelly_12k example_kelly_12e example_kelly_13
  by (simp add: double_eval)

text \<open>
  Claim C2, amended: an entry at a bar of the series with Kelly sizing enabled and at
  least five trades in the log is carried out; the Kelly fraction \<open>f\<close> lies in \<open>[0, 1]\<close>,
  the shares bought are \<open>f\<close> times the available cash (the cash after the entry
  commission) divided by the fill price, the trade records that number of shares, and the
  cash of the ledger is \<open>0\<close> after \<open>enterPosition\<close>: the remainder is not kept.
\<close>

theorem kelly_entry_sizing:
  assumes "idx < length (data b)" and "useKellyCriterion b" and "5 \<le> length (trades b)"
  shows "\<exists>b' f price. enterPosition b idx = Some b'
           \<and> calculateKellyFraction b = Fin f \<and> 0 \<le> f \<and> f \<le> 1
           \<and> fillPrice (data b) idx = Some price
           \<and> currentShares b' = (currentCash b - currentCash b * commissionRate b) * Fin f / price
           \<and> shares (last (trades b')) = currentShares b'
           \<and> currentCash b' = Fin 0"
proof -
  from enterPosition_total [OF assms(1)] obtain b' where e: "enterPosition b idx = Some b'"
    by blast
  from kelly_clamped [of b] obtain f where
    f: "calculateKellyFraction b = Fin f" "0 \<le> f" "f \<le> 1" by blast
  from e show ?thesis
  proof (rule enterPosition_Some)
    fix price g
    assume "fillPrice (data b) idx = Some price"
      and "g = (if useKellyCriterion b \<and> 5 \<le> length (trades b) then calculateKellyFraction b
                else Fin 1)"
      and "b' = b\<lparr>currentShares := (currentCash b - currentCash b * commissionRate b) * g / price,
            currentCash := Fin 0, inPosition := True,
            trades := trades b @
              [\<lparr>entryDate = date (data b ! idx), exitDate = [], entryPrice = price,
                exitPrice = Fin 0,
                shares = (currentCash b - currentCash b * commissionRate b) * g / price,
                pnl = Fin 0, returnPct = Fin 0\<rparr>]\<rparr>"
    with assms(2,3) f e show ?thesis by simp
  qed
qed

theorem kelly_entry_sizing_witness:
  "\<exists>b b'. run_upto example_kelly 12 = Some b
      \<and> 12 < length (data b) \<and> useKellyCriterion b \<and> 5 \<le> length (trades b)
      \<and> enterPosition b 12 = Some b'
      \<and> calculateKellyFraction b = Fin (1 / 10)
      \<and> currentShares b' = Fin (107811 / 10000) \<and> currentCash b' = Fin 0"
proof -
  from map_option_Some_ex [OF example_kelly_12t] obtain b where
    b: "run_upto example_kelly 12 = Some b"
    and k: "useKellyCriterion b" "5 \<le> length (trades b)" "12 < length (data b)"
    by auto
  from kelly_entry_sizing [OF k(3) k(1,2)] obtain b' where
    e: "enterPosition b 12 = Some b'" and c: "currentCash b' = Fin 0"
    by blast
  from example_kelly_12e b e have "ledger b' = (Fin 0, Fin (107811 / 10000), True)"
    by simp
  moreover from example_kelly_12k b have "calculateKellyFraction b = Fin (1 / 10)" by simp
  ultimately show ?thesis using b k e c by (auto simp: ledger_def)
qed

subsection \<open>The Kelly fraction\<close>

lemma kelly_tally_fold:
  "fold kelly_tally ts (w, a, l) =
     (w + int (length (winners ts)),
      fold (\<lambda>t s. s + returnPct t) (winners ts) a,
      fold (\<lambda>t s. s + - returnPct t) (losers ts) l)"
  by (induction ts arbitrary: w a l) (simp_all add: kelly_tally_def winners_def losers_def)

lemma metrics_tally_fold:
  "fold metrics_tally ts (w, a, l) =
     (w + int (length (winners ts)),
      fold (\<lambda>t s. s + pnl t) (winners ts) a,
      fold (\<lambda>t s. s + - pnl t) (losers ts) l)"
  by (induction ts arbitrary: w a l) (simp_all add: metrics_tally_def winners_def losers_def)

lemma double_sum_map: "double_sum (map f ts) = fold (\<lambda>t s. s + f t) ts (Fin 0)"
  by (simp add: double_sum_def fold_map comp_def)

lemma winners_losers_length: "length (winners ts) + length (losers ts) = length ts"
  unfolding winners_def losers_def by (rule sum_length_filter_compl)

lemma calculateKellyFraction_char:
  "calculateKellyFraction b =
     (if length (trades b) < 5 then Fin 1
      else if winners (trades b) = [] \<or> losers (trades b) = []
              \<or> is_zero (kelly_avgLoss (trades b))
      then Fin 1
      else half_kelly (trades b))"
proof -
  let ?ts = "trades b"
  have n: "length (winners ?ts) + length (losers ?ts) = length ?ts"
    by (rule winners_losers_length)
  have f: "fold kelly_tally ?ts (0, Fin 0, Fin 0)
      = (int (length (winners ?ts)), double_sum (map returnPct (winners ?ts)),
         double_sum (map (\<lambda>t. - returnPct t) (losers ?ts)))"
    by (simp add: kelly_tally_fold double_sum_map)
  have l: "length ?ts - length (winners ?ts) = length (losers ?ts)"
    using n by simp
  have e: "length (winners ?ts) = length ?ts \<longleftrightarrow> losers ?ts = []"
    using n by auto
  show ?thesis
    unfolding calculateKellyFraction_def f
    by (simp add: Let_def l e half_kelly_def kelly_winRate_def kelly_avgWin_def
        kelly_avgLoss_def double_of_int_def double_of_nat_def)
qed

lemmas kelly_eval = winners_def losers_def kelly_avgWin_def kelly_avgLoss_def half_kelly_def
  kelly_winRate_def double_sum_def

lemma example_losing_6:
  "map_option (\<lambda>b. (length (winners (trades b)), length (losers (trades b)),
                     kelly_avgWin (trades b), kelly_avgLoss (trades b),
                     half_kelly (trades b), calculateKellyFraction b))
     (run_upto example_losing 6) = Some (1, 1, Fin 10, Fin 10, Fin 0, Fin 1)"
  by (simp add: example_losing_def example_losing_bars_def run_eval kelly_eval)

lemma example_kelly_12h:
  "map_option (\<lambda>b. (length (trades b), length (winners (trades b)), length (losers (trades b)),
                     kelly_avgWin (trades b), kelly_avgLoss (trades b), half_kelly (trades b)))
     (run_upto example_kelly 12) = Some (5, 3, 2, Fin 10, Fin 10, Fin (1 / 10))"
  by (simp add: example_kelly_def example_kelly_bars_def run_eval kelly_eval)

text \<open>
  Claim C5, as stated: for every trade history the fraction is \<open>1\<close> in the degenerate
  cases (no win, no loss, or an average loss of \<open>0\<close>) and the clamped half-Kelly value
  otherwise. When the loop of the run on \<open>example_losing_bars\<close> has handled the bars
  below 6, the log holds two trades, a win of 10 percent and a loss of 10 percent: no
  case is degenerate, the clamped half-Kelly value is \<open>0\<close>, and the function returns
  \<open>1\<close>, since it returns \<open>1\<close> for every log of fewer than five trades.
\<close>

theorem kelly_small_history_counterexample:
  "map_option (\<lambda>b. (length (winners (trades b)), length (losers (trades b)),
                     kelly_avgWin (trades b), kelly_avgLoss (trades b),
                     half_kelly (trades b), calculateKellyFraction b))
     (run_upto example_losing 6) = Some (1, 1, Fin 10, Fin 10, Fin 0, Fin 1)"
  by (rule example_losing_6)

text \<open>
  Claim C5, amended: for every trade history \<open>calculateKellyFraction\<close> returns a value in
  \<open>[0, 1]\<close>. It is exactly \<open>1\<close> for a log of fewer than five trades and in the
  degenerate cases (no win, no loss, or an average loss that compares equal to \<open>0\<close>);
  otherwise it is the half-Kelly value \<open>winRate - (1 - winRate) / (avgWin / avgLoss)\<close>,
  halved and clamped to \<open>[0, 1]\<close>, where the clamp sends a NaN to \<open>0\<close>.
\<close>

theorem kelly_fraction_value:
  "calculateKellyFraction b =
     (if length (trades b) < 5 then Fin 1
      else if winners (trades b) = [] \<or> losers (trades b) = []
              \<or> is_zero (kelly_avgLoss (trades b))
      then Fin 1
      else half_kelly (trades b))
   \<and> (\<exists>f. calculateKellyFraction b = Fin f \<and> 0 \<le> f \<and> f \<le> 1)
   \<and> (\<exists>h. half_kelly (trades b) = Fin h \<and> 0 \<le> h \<and> h \<le> 1)"
  using calculateKellyFraction_char [of b] kelly_clamped [of b] clamp_range
  by (simp add: half_kelly_def)

theorem kelly_fraction_value_witness:
  "\<exists>b. run_upto example_kelly 12 = Some b
      \<and> length (trades b) = 5 \<and> length (winners (trades b)) = 3 \<and> length (losers (trades b)) = 2
      \<and> kelly_avgWin (trades b) = Fin 10 \<and> kelly_avgLoss (trades b) = Fin 10
      \<and> half_kelly (trades b) = Fin (1 / 10)
      \<and> calculateKellyFraction b = Fin (1 / 10)"
proof -
  from map_option_Some_ex [OF example_kelly_12h] obtain b where
    b: "run_upto example_kelly 12 = Some b"
    and v: "length (trades b) = 5" "length (winners (trades b)) = 3"
      "length (losers (trades b)) = 2" "kelly_avgWin (trades b) = Fin 10"
      "kelly_avgLoss (trades b) = Fin 10" "half_kelly (trades b) = Fin (1 / 10)"
    by auto
  from v have "winners (trades b) \<noteq> []" "losers (trades b) \<noteq> []" by auto
  with v kelly_fraction_value [of b]
  have "calculateKellyFraction b = Fin (1 / 10)"
    by simp
  with b v show ?thesis by blast
qed

section \<open>Properties of the metrics calculator\<close>

subsection \<open>Break-even trades\<close>

lemma calculateMetrics_trades_char:
  "numTrades (calculateMetrics_trades b) = int (length (trades b))
   \<and> winningTrades (calculateMetrics_trades b) = int (length (winners (trades b)))
   \<and> winRate (calculateMetrics_trades b) =
       (if trades b = [] then Fin 0
        else double_of_nat (length (winners (trades b))) * Fin 100
             / double_of_nat (length (trades b)))
   \<and> avgWin (calculateMetrics_trades b) =
       (if winners (trades b) = [] then Fin 0
        else double_sum (map pnl (winners (trades b)))
             / double_of_nat (length (winners (trades b))))
   \<and> avgLoss (calculateMetrics_trades b) =
       (if losers (trades b) = [] then Fin 0
        else double_sum (map (\<lambda>u. - pnl u) (losers (trades b)))
             / double_of_nat (length (losers (trades b))))"
proof -
  let ?ts = "trades b"
  have n: "length (winners ?ts) + length (losers ?ts) = length ?ts"
    by (rule winners_losers_length)
  then have l: "int (length ?ts) - int (length (winners ?ts)) = int (length (losers ?ts))"
    by linarith
  have f: "fold metrics_tally ?ts (0, Fin 0, Fin 0)
      = (int (length (winners ?ts)), double_sum (map pnl (winners ?ts)),
         double_sum (map (\<lambda>u. - pnl u) (losers ?ts)))"
    by (simp add: metrics_tally_fold double_sum_map)
  have "numTrades (calculateMetrics_trades b) = int (length ?ts)"
    and "winningTrades (calculateMetrics_trades b) = int (length (winners ?ts))"
    and "winRate (calculateMetrics_trades b) =
       (if ?ts = [] then Fin 0
        else double_of_nat (length (winners ?ts)) * Fin 100 / double_of_nat (length ?ts))"
    and "avgWin (calculateMetrics_trades b) =
       (if winners ?ts = [] then Fin 0
        else double_sum (map pnl (winners ?ts)) / double_of_nat (length (winners ?ts)))"
    unfolding calculateMetrics_trades_def f
    by (simp_all add: Let_def double_of_int_def double_of_nat_def)
  moreover have "avgLoss (calculateMetrics_trades b) =
       (if losers ?ts = [] then Fin 0
        else double_sum (map (\<lambda>u. - pnl u) (losers ?ts)) / double_of_nat (length (losers ?ts)))"
  proof -
    have "length (winners ?ts) < length ?ts \<longleftrightarrow> losers ?ts \<noteq> []"
      using n by (cases "losers ?ts") auto
    moreover have "real_of_int (int (length ?ts) - int (length (winners ?ts)))
        = real (length (losers ?ts))"
      unfolding l by simp
    ultimately show ?thesis
      unfolding calculateMetrics_trades_def f
      by (simp add: Let_def double_of_int_def double_of_nat_def del: of_int_diff)
  qed
  ultimately show ?thesis by blast
qed

text \<open>A sum is never the negative zero unless both terms are, and never out of range.\<close>

lemma plus_clean:
  "representable (a + b)" "a \<noteq> NZero \<Longrightarrow> a + b \<noteq> NZero"
  using overflow_pos
  by (cases a; cases b; simp add: plus_double_def signed_zero_def rounded_def; linarith?)+

lemma fold_plus_clean:
  "representable l \<Longrightarrow> l \<noteq> NZero \<Longrightarrow>
   representable (fold (\<lambda>t s. s + f t) ts l) \<and> fold (\<lambda>t s. s + f t) ts l \<noteq> NZero"
  by (induction ts arbitrary: l) (simp_all add: plus_clean)

lemma plus_zero:
  assumes "is_zero z" and "representable l" and "l \<noteq> NZero"
  shows "l + - z = l"
  using assms
  by (cases z; cases l)
    (auto simp: plus_double_def uminus_double_def signed_zero_def rounded_def)

lemma fold_plus_NaN: "fold (\<lambda>t s. s + f t) ts NaN = NaN"
  by (induction ts) (simp_all add: NaN_ops)

lemma not_positive_zero: "is_zero p \<Longrightarrow> \<not> Fin 0 < p"
  by (cases p) (simp_all add: less_double_def)

lemma break_even_return:
  assumes "is_zero p"
  shows "if is_zero c \<or> is_nan c then p / c * Fin 100 = NaN else is_zero (p / c * Fin 100)"
  using assms
  by (cases p; cases c)
    (auto simp: divide_double_def times_double_def signed_zero_def signed_inf_def)

lemma metrics_tally_break_even:
  assumes "is_zero (pnl t)"
  shows "fold metrics_tally (xs @ t # ys) (0, Fin 0, Fin 0)
       = fold metrics_tally (xs @ ys) (0, Fin 0, Fin 0)"
proof -
  define l where "l = fold (\<lambda>t s. s + - pnl t) (losers xs) (Fin 0)"
  have c: "representable l \<and> l \<noteq> NZero"
    unfolding l_def by (rule fold_plus_clean) (simp_all add: overflow_pos)
  have "metrics_tally t (w, a, l) = (w, a, l)" for w a
    using assms c not_positive_zero [OF assms] plus_zero [of "pnl t" l]
    by (simp add: metrics_tally_def)
  then show ?thesis
    by (simp add: metrics_tally_fold [of xs] l_def)
qed

lemma kelly_tally_break_even:
  assumes "is_zero (pnl t)" and "is_zero (returnPct t)"
  shows "fold kelly_tally (xs @ t # ys) (0, Fin 0, Fin 0)
       = fold kelly_tally (xs @ ys) (0, Fin 0, Fin 0)"
proof -
  define l where "l = fold (\<lambda>t s. s + - returnPct t) (losers xs) (Fin 0)"
  have c: "representable l \<and> l \<noteq> NZero"
    unfolding l_def by (rule fold_plus_clean) (simp_all add: overflow_pos)
  have "kelly_tally t (w, a, l) = (w, a, l)" for w a
    using assms c not_positive_zero [OF assms(1)] plus_zero [of "returnPct t" l]
    by (simp add: kelly_tally_def)
  then show ?thesis
    by (simp add: kelly_tally_fold [of xs] l_def)
qed

lemma kelly_tally_NaN:
  assumes "is_zero (pnl t)" and "returnPct t = NaN"
  shows "snd (snd (fold kelly_tally (xs @ t # ys) (0, Fin 0, Fin 0))) = NaN"
proof -
  have "kelly_tally t (w, a, l) = (w, a, NaN)" for w a l
    using assms not_positive_zero [OF assms(1)]
    by (simp add: kelly_tally_def NaN_ops uminus_double_def)
  then show ?thesis
    by (simp add: kelly_tally_fold [of xs] kelly_tally_fold [of ys] fold_plus_NaN)
qed

lemma enterPosition_consistent:
  "enterPosition b i = Some b' \<Longrightarrow> \<not> inPosition b \<Longrightarrow> returns_consistent b \<Longrightarrow> returns_consistent b'"
  by (erule enterPosition_Some) (simp add: returns_consistent_def closed_trades_def)

lemma exitPosition_return:
  assumes "exitPosition b i = Some b'"
  shows "returnPct (last (trades b')) =
           pnl (last (trades b')) / (shares (last (trades b')) * entryPrice (last (trades b')))
           * Fin 100"
  using assms by (elim exitPosition_Some) simp

lemma exitPosition_consistent:
  assumes "exitPosition b i = Some b'" and "inPosition b" and "returns_consistent b"
  shows "returns_consistent b'"
proof -
  from assms(1) have t: "trades b' = butlast (trades b) @ [last (trades b')]" "\<not> inPosition b'"
    by (auto elim: exitPosition_Some)
  from assms(2,3) have "\<forall>t \<in> set (butlast (trades b)).
      returnPct t = pnl t / (shares t * entryPrice t) * Fin 100"
    by (simp add: returns_consistent_def closed_trades_def)
  with exitPosition_return [OF assms(1)] t(2) show ?thesis
    unfolding returns_consistent_def closed_trades_def by (subst (2) t(1)) auto
qed

lemma run_body_consistent:
  "run_body closes shortMA longMA rsi macdData bb i b = Some b' \<Longrightarrow>
   returns_consistent b \<Longrightarrow> returns_consistent b'"
  using run_body_cases [of closes shortMA longMA rsi macdData bb i b b']
    enterPosition_consistent [of b i b'] exitPosition_consistent [of b i b']
  by auto

lemma run_body_loop_consistent:
  assumes "for_loop is (run_body closes shortMA longMA rsi macdData bb) b = Some b'"
    and "returns_consistent b"
  shows "returns_consistent b'"
  by (rule for_loop_invariant [OF assms(1), where P = returns_consistent])
     (auto intro: assms(2) dest: run_body_consistent)

lemma run_upto_consistent:
  assumes "run_upto b k = Some b'" and "returns_consistent b"
  shows "returns_consistent b'"
  using assms unfolding run_upto_Some_iff by (auto dest: run_body_loop_consistent)

lemma run_consistent:
  assumes "run b = Some b'" and "returns_consistent b"
  shows "returns_consistent b'"
proof (cases "length (data b) < size_t_of (longPeriod b + 1)")
  case True
  with assms show ?thesis by (simp add: run_def)
next
  case False
  with assms(1) obtain bl where l: "run_upto b (length (data b)) = Some bl"
    and r: "(if inPosition bl then exitPosition bl (length (data bl) - 1) else Some bl) = Some b'"
    by (auto simp: run_def run_loop_def split: bind_splits)
  from run_upto_consistent [OF l assms(2)] have "returns_consistent bl" .
  with r show ?thesis
    by (auto split: if_splits dest: exitPosition_consistent)
qed

lemma Backtester_new_consistent:
  "returns_consistent (Backtester_new d shortMA longMA capital rsi ema mcd boll stopLoss takeProfit commission kelly)"
  by (simp add: returns_consistent_def closed_trades_def Backtester_new_def)

lemma example_kelly_stats:
  "map_option (\<lambda>b. (map pnl (trades b), map returnPct (trades b), inPosition b))
     (run example_kelly)
   = Some ([Fin 100, Fin 110, Fin 121, Fin (- (1331 / 10)), Fin (- (11979 / 100)), Fin 0],
           [Fin 10, Fin 10, Fin 10, Fin (- 10), Fin (- 10), Fin 0], False)"
  by (simp add: example_kelly_def example_kelly_bars_def run_eval)

lemma example_losing_stats:
  "map_option (\<lambda>b. (pnl (last (trades b)), returnPct (last (trades b)),
                     shares (last (trades b)), entryPrice (last (trades b)),
                     snd (snd (fold kelly_tally (butlast (trades b)) (0, Fin 0, Fin 0))),
                     snd (snd (fold kelly_tally (trades b) (0, Fin 0, Fin 0)))))
     (run example_losing) = Some (Fin 0, NaN, Fin 0, Fin 10, Fin 40, NaN)"
  by (simp add: example_losing_def example_losing_bars_def run_eval)

lemma example_kelly_13t:
  "map_option (\<lambda>b. (length (data b), length (trades b))) (run_upto example_kelly 13)
     = Some (14, 6)"
  by (simp add: example_kelly_def example_kelly_bars_def run_eval)

text \<open>
  Claim C10, as stated: a trade with a profit of exactly \<open>0\<close> adds \<open>0\<close> to the total
  loss of both calculators. The run on \<open>example_losing_bars\<close> ends with six trades. The
  last one was entered with a Kelly fraction of \<open>0\<close>, so it holds \<open>0\<close> shares; its
  profit is \<open>0\<close> and its return is \<open>0 / 0\<close>, a NaN. The total loss of the Kelly
  calculator is \<open>40\<close> over the five trades before it and a NaN over the six.
\<close>

theorem break_even_nan_counterexample:
  "map_option (\<lambda>b. (pnl (last (trades b)), returnPct (last (trades b)),
                     shares (last (trades b)), entryPrice (last (trades b)),
                     snd (snd (fold kelly_tally (butlast (trades b)) (0, Fin 0, Fin 0))),
                     snd (snd (fold kelly_tally (trades b) (0, Fin 0, Fin 0)))))
     (run example_losing) = Some (Fin 0, NaN, Fin 0, Fin 10, Fin 40, NaN)"
  by (rule example_losing_stats)

text \<open>
  Claim C10, amended: a trade \<open>t\<close> of the log whose profit compares equal to \<open>0\<close> is a
  losing trade for the metrics calculator and for the Kelly calculator alike. It is not
  among the wins that \<open>winningTrades\<close>, \<open>winRate\<close> and the Kelly win count are taken
  over, and it is among the losses whose number divides the total loss in \<open>avgLoss\<close>.
  The metrics calculator gets the same win count and the same totals from the log with
  \<open>t\<close> and from the log without it: \<open>t\<close> adds \<open>0\<close> to the total loss. The Kelly
  calculator adds \<open>- returnPct\<close>: when the return of \<open>t\<close> is \<open>0\<close> its tallies are the
  same with and without \<open>t\<close>, and when it is a NaN its total loss is a NaN. The return
  that \<open>exitPosition\<close> records, in every trade of the log of a run, is the profit over
  the cost \<open>shares * entryPrice\<close>, in percent: for a profit of \<open>0\<close> that is a NaN when
  the cost is \<open>0\<close> (or a NaN), and \<open>0\<close> otherwise.
\<close>

theorem break_even_counts_as_loss:
  assumes "trades b = xs @ t # ys" and "is_zero (pnl t)"
  shows "t \<notin> set (winners (trades b)) \<and> t \<in> set (losers (trades b))
       \<and> winners (trades b) = winners (xs @ ys)
       \<and> length (losers (trades b)) = length (losers (xs @ ys)) + 1
       \<and> winningTrades (calculateMetrics_trades b) = int (length (winners (trades b)))
       \<and> winRate (calculateMetrics_trades b)
           = double_of_nat (length (winners (trades b))) * Fin 100
             / double_of_nat (length (trades b))
       \<and> avgLoss (calculateMetrics_trades b)
           = double_sum (map (\<lambda>u. - pnl u) (losers (trades b)))
             / double_of_nat (length (losers (trades b)))
       \<and> fold metrics_tally (trades b) (0, Fin 0, Fin 0)
           = fold metrics_tally (xs @ ys) (0, Fin 0, Fin 0)
       \<and> fold kelly_tally (trades b) (0, Fin 0, Fin 0)
           = (int (length (winners (trades b))),
              double_sum (map returnPct (winners (trades b))),
              double_sum (map (\<lambda>u. - returnPct u) (losers (trades b))))
       \<and> calculateKellyFraction b =
           (if length (trades b) < 5 then Fin 1
            else if winners (trades b) = [] \<or> is_zero (kelly_avgLoss (trades b)) then Fin 1
            else half_kelly (trades b))
       \<and> (is_zero (returnPct t) \<longrightarrow>
            fold kelly_tally (trades b) (0, Fin 0, Fin 0)
              = fold kelly_tally (xs @ ys) (0, Fin 0, Fin 0))
       \<and> (returnPct t = NaN \<longrightarrow>
            snd (snd (fold kelly_tally (trades b) (0, Fin 0, Fin 0))) = NaN)
       \<and> (if is_zero (shares t * entryPrice t) \<or> is_nan (shares t * entryPrice t)
           then pnl t / (shares t * entryPrice t) * Fin 100 = NaN
           else is_zero (pnl t / (shares t * entryPrice t) * Fin 100))
       \<and> (i < length (data e) \<and> trades e \<noteq> [] \<longrightarrow>
            (\<exists>e'. exitPosition e i = Some e'
               \<and> returnPct (last (trades e')) =
                   pnl (last (trades e'))
                   / (shares (last (trades e')) * entryPrice (last (trades e'))) * Fin 100))
       \<and> (0 < shortMA \<and> 0 < longMA \<longrightarrow>
            (\<exists>st. run (Backtester_new d shortMA longMA capital rsi ema mcd boll stopLoss
                         takeProfit commission kelly) = Some st
               \<and> (\<forall>u \<in> set (trades st).
                     returnPct u = pnl u / (shares u * entryPrice u) * Fin 100)))"
proof -
  note p = not_positive_zero [OF assms(2)]
  from assms(1) p have m: "t \<notin> set (winners (trades b))" "t \<in> set (losers (trades b))"
    "winners (trades b) = winners (xs @ ys)"
    "length (losers (trades b)) = length (losers (xs @ ys)) + 1"
    by (simp_all add: winners_def losers_def)
  then have ne: "losers (trades b) \<noteq> []" "trades b \<noteq> []"
    using assms(1) by auto
  from ne calculateMetrics_trades_char [of b]
  have c: "winningTrades (calculateMetrics_trades b) = int (length (winners (trades b)))"
    "winRate (calculateMetrics_trades b)
       = double_of_nat (length (winners (trades b))) * Fin 100
         / double_of_nat (length (trades b))"
    "avgLoss (calculateMetrics_trades b)
       = double_sum (map (\<lambda>u. - pnl u) (losers (trades b)))
         / double_of_nat (length (losers (trades b)))"
    by simp_all
  have mt: "fold metrics_tally (trades b) (0, Fin 0, Fin 0)
           = fold metrics_tally (xs @ ys) (0, Fin 0, Fin 0)"
    unfolding assms(1) using assms(2) by (rule metrics_tally_break_even)
  have k: "fold kelly_tally (trades b) (0, Fin 0, Fin 0)
           = (int (length (winners (trades b))),
              double_sum (map returnPct (winners (trades b))),
              double_sum (map (\<lambda>u. - returnPct u) (losers (trades b))))"
    by (simp add: kelly_tally_fold double_sum_map)
  have f: "calculateKellyFraction b =
           (if length (trades b) < 5 then Fin 1
            else if winners (trades b) = [] \<or> is_zero (kelly_avgLoss (trades b)) then Fin 1
            else half_kelly (trades b))"
    using ne calculateKellyFraction_char [of b] by simp
  have kz: "fold kelly_tally (trades b) (0, Fin 0, Fin 0)
              = fold kelly_tally (xs @ ys) (0, Fin 0, Fin 0)"
    if "is_zero (returnPct t)"
    unfolding assms(1) using assms(2) that by (rule kelly_tally_break_even)
  have kn: "snd (snd (fold kelly_tally (trades b) (0, Fin 0, Fin 0))) = NaN"
    if "returnPct t = NaN"
    unfolding assms(1) using assms(2) that by (rule kelly_tally_NaN)
  note r = break_even_return [OF assms(2), of "shares t * entryPrice t"]
  have x: "\<exists>e'. exitPosition e i = Some e'
               \<and> returnPct (last (trades e')) =
                   pnl (last (trades e'))
                   / (shares (last (trades e')) * entryPrice (last (trades e'))) * Fin 100"
    if "i < length (data e)" "trades e \<noteq> []"
    using exitPosition_total [OF that] exitPosition_return by blast
  let ?b0 = "Backtester_new d shortMA longMA capital rsi ema mcd boll stopLoss
                         takeProfit commission kelly"
  have u: "\<exists>st. run ?b0 = Some st
               \<and> (\<forall>u \<in> set (trades st).
                     returnPct u = pnl u / (shares u * entryPrice u) * Fin 100)"
    if q: "0 < shortMA" "0 < longMA"
  proof -
    from q have "0 < shortPeriod ?b0" "0 < longPeriod ?b0"
      by (simp_all add: Backtester_new_def)
    from run_total [OF this Backtester_new_ledger] obtain st where
      s: "run ?b0 = Some st"
      and n: "\<not> length (data ?b0) < size_t_of (longPeriod ?b0 + 1) \<longrightarrow> \<not> inPosition st"
      by blast
    have "\<not> inPosition st"
    proof (cases "length (data ?b0) < size_t_of (longPeriod ?b0 + 1)")
      case True
      with s have "st = ?b0" by (simp add: run_def)
      then show ?thesis by (simp add: Backtester_new_def)
    next
      case False
      with n show ?thesis by simp
    qed
    with run_consistent [OF s Backtester_new_consistent] s show ?thesis
      by (auto simp: returns_consistent_def closed_trades_def)
  qed
  from m c mt k f kz kn r x u show ?thesis by blast
qed

theorem break_even_counts_as_loss_witness:
  "\<exists>b t b2 t2 e e' st.
      run example_kelly = Some b \<and> trades b = butlast (trades b) @ t # []
    \<and> is_zero (pnl t) \<and> is_zero (returnPct t)
    \<and> t \<in> set (losers (trades b))
    \<and> length (winners (trades b)) = 3 \<and> length (losers (trades b)) = 3
    \<and> winningTrades (calculateMetrics_trades b) = 3
    \<and> winRate (calculateMetrics_trades b) = Fin 50
    \<and> avgLoss (calculateMetrics_trades b) = Fin (25289 / 300)
    \<and> fold metrics_tally (trades b) (0, Fin 0, Fin 0)
        = fold metrics_tally (butlast (trades b) @ []) (0, Fin 0, Fin 0)
    \<and> fold kelly_tally (trades b) (0, Fin 0, Fin 0)
        = fold kelly_tally (butlast (trades b) @ []) (0, Fin 0, Fin 0)
    \<and> run example_losing = Some b2 \<and> trades b2 = butlast (trades b2) @ t2 # []
    \<and> is_zero (pnl t2) \<and> returnPct t2 = NaN
    \<and> is_zero (shares t2 * entryPrice t2)
    \<and> pnl t2 / (shares t2 * entryPrice t2) * Fin 100 = NaN
    \<and> snd (snd (fold kelly_tally (trades b2) (0, Fin 0, Fin 0))) = NaN
    \<and> 13 < length (data e) \<and> trades e \<noteq> [] \<and> exitPosition e 13 = Some e'
    \<and> returnPct (last (trades e')) =
         pnl (last (trades e')) / (shares (last (trades e')) * entryPrice (last (trades e')))
         * Fin 100
    \<and> (0::int) < 1 \<and> (0::int) < 2
    \<and> run example_kelly = Some st
    \<and> (\<forall>u \<in> set (trades st). returnPct u = pnl u / (shares u * entryPrice u) * Fin 100)"
proof -
  from map_option_Some_ex [OF example_kelly_stats] obtain b where
    b: "run example_kelly = Some b"
    and p: "map pnl (trades b)
        = [Fin 100, Fin 110, Fin 121, Fin (- (1331 / 10)), Fin (- (11979 / 100)), Fin 0]"
    and q: "map returnPct (trades b)
        = [Fin 10, Fin 10, Fin 10, Fin (- 10), Fin (- 10), Fin 0]"
    by auto
  from arg_cong [OF p, of length] have n: "length (trades b) = 6"
    by simp
  then have ne: "trades b \<noteq> []" by auto
  define t where "t = last (trades b)"
  from ne have d: "trades b = butlast (trades b) @ t # []"
    by (simp add: t_def)
  from arg_cong [OF p, of last] ne have z: "is_zero (pnl t)"
    by (simp add: last_map t_def)
  from arg_cong [OF q, of last] ne have zr: "is_zero (returnPct t)"
    by (simp add: last_map t_def)
  have w: "length (winners (trades b))
      = length (filter (\<lambda>x. x > Fin 0) (map pnl (trades b)))"
    by (simp add: winners_def filter_map comp_def)
  have l: "length (losers (trades b))
      = length (filter (\<lambda>x. \<not> x > Fin 0) (map pnl (trades b)))"
    by (simp add: losers_def filter_map comp_def)
  have s: "map (\<lambda>u. - pnl u) (losers (trades b))
      = map uminus (filter (\<lambda>x. \<not> x > Fin 0) (map pnl (trades b)))"
    by (simp add: losers_def filter_map comp_def)
  from map_option_Some_ex [OF example_losing_stats] obtain b2 where
    b2: "run example_losing = Some b2"
    and v2: "pnl (last (trades b2)) = Fin 0" "returnPct (last (trades b2)) = NaN"
      "shares (last (trades b2)) = Fin 0" "entryPrice (last (trades b2)) = Fin 10"
      "snd (snd (fold kelly_tally (trades b2) (0, Fin 0, Fin 0))) = NaN"
    by auto
  define t2 where "t2 = last (trades b2)"
  have ne2: "trades b2 \<noteq> []"
  proof
    assume "trades b2 = []"
    with v2(5) show False by simp
  qed
  then have d2: "trades b2 = butlast (trades b2) @ t2 # []"
    by (simp add: t2_def)
  from v2 have z2: "is_zero (pnl t2)" "returnPct t2 = NaN" "shares t2 = Fin 0"
    "entryPrice t2 = Fin 10"
    by (simp_all add: t2_def)
  have c2: "is_zero (shares t2 * entryPrice t2)"
    unfolding z2(3,4) by (simp add: double_eval)
  from map_option_Some_ex [OF example_kelly_13t] obtain e where
    e: "run_upto example_kelly 13 = Some e"
    and he: "length (data e) = 14" "length (trades e) = 6"
    by auto
  from he have h: "13 < length (data e)" "trades e \<noteq> []"
    by auto
  have h3: "(0::int) < 1" "(0::int) < 2" by simp_all
  note T = break_even_counts_as_loss [OF d z, where e = e and i = 13
      and d = example_kelly_bars and shortMA = 1
      and longMA = 2 and capital = "Fin 1000" and rsi = False and ema = False and mcd = False
      and boll = False and stopLoss = "Fin 0" and takeProfit = "Fin 0" and commission = "Fin 0"
      and kelly = True, unfolded example_kelly_def [symmetric]]
  note T2 = break_even_counts_as_loss [OF d2 z2(1)]
  from T
  have "t \<in> set (losers (trades b))"
    and "winningTrades (calculateMetrics_trades b) = int (length (winners (trades b)))"
    and "winRate (calculateMetrics_trades b)
           = double_of_nat (length (winners (trades b))) * Fin 100
             / double_of_nat (length (trades b))"
    and "avgLoss (calculateMetrics_trades b)
           = double_sum (map (\<lambda>u. - pnl u) (losers (trades b)))
             / double_of_nat (length (losers (trades b)))"
    by blast+
  then have v: "t \<in> set (losers (trades b))
      \<and> length (winners (trades b)) = 3 \<and> length (losers (trades b)) = 3
      \<and> winningTrades (calculateMetrics_trades b) = 3
      \<and> winRate (calculateMetrics_trades b) = Fin 50
      \<and> avgLoss (calculateMetrics_trades b) = Fin (25289 / 300)"
    unfolding w l s n p by (simp add: double_eval double_sum_def)
  from T have mt: "fold metrics_tally (trades b) (0, Fin 0, Fin 0)
        = fold metrics_tally (butlast (trades b) @ []) (0, Fin 0, Fin 0)"
    by blast
  from T zr have kt: "fold kelly_tally (trades b) (0, Fin 0, Fin 0)
        = fold kelly_tally (butlast (trades b) @ []) (0, Fin 0, Fin 0)"
    by blast
  from T h obtain e' where x: "exitPosition e 13 = Some e'"
    and xr: "returnPct (last (trades e')) =
         pnl (last (trades e')) / (shares (last (trades e')) * entryPrice (last (trades e')))
         * Fin 100"
    by blast
  from T h3 b have rc: "\<forall>u \<in> set (trades b).
      returnPct u = pnl u / (shares u * entryPrice u) * Fin 100"
    by auto
  from T2 z2(2) have kn: "snd (snd (fold kelly_tally (trades b2) (0, Fin 0, Fin 0))) = NaN"
    by blast
  from T2 c2 have rn: "pnl t2 / (shares t2 * entryPrice t2) * Fin 100 = NaN"
    by auto
  from b d z zr v mt kt b2 d2 z2(1,2) c2 rn kn h x xr h3 rc show ?thesis by blast
qed

lemma run_new_total:
  assumes "0 < shortMA" and "0 < longMA"
  shows "\<exists>st. run (Backtester_new d shortMA longMA capital rsi ema mcd boll stopLoss
                      takeProfit commission kelly) = Some st \<and> \<not> inPosition st"
proof -
  let ?b0 = "Backtester_new d shortMA longMA capital rsi ema mcd boll stopLoss
                      takeProfit commission kelly"
  from assms have "0 < shortPeriod ?b0" "0 < longPeriod ?b0"
    by (simp_all add: Backtester_new_def)
  from run_total [OF this Backtester_new_ledger] obtain st where
    s: "run ?b0 = Some st"
    and n: "\<not> length (data ?b0) < size_t_of (longPeriod ?b0 + 1) \<longrightarrow> \<not> inPosition st"
    by blast
  have "\<not> inPosition st"
  proof (cases "length (data ?b0) < size_t_of (longPeriod ?b0 + 1)")
    case True
    with s have "st = ?b0" by (simp add: run_def)
    then show ?thesis by (simp add: Backtester_new_def)
  next
    case False
    with n show ?thesis by simp
  qed
  with s show ?thesis by blast
qed

subsection \<open>The replayed equity\<close>

lemma enterPosition_recorded:
  "enterPosition b i = Some b' \<Longrightarrow> position_recorded b'"
  by (erule enterPosition_Some) (simp add: position_recorded_def)

lemma exitPosition_recorded:
  "exitPosition b i = Some b' \<Longrightarrow> inPosition b \<Longrightarrow> position_recorded b \<Longrightarrow> position_recorded b'"
  by (erule exitPosition_Some) (simp add: position_recorded_def)

lemma run_body_recorded:
  "run_body closes shortMA longMA rsi macdData bb i b = Some b' \<Longrightarrow> position_recorded b \<Longrightarrow> position_recorded b'"
  using run_body_cases [of closes shortMA longMA rsi macdData bb i b b']
    enterPosition_recorded [of b i b'] exitPosition_recorded [of b i b']
  by auto

lemma run_body_loop_recorded:
  assumes "for_loop is (run_body closes shortMA longMA rsi macdData bb) b = Some b'"
    and "position_recorded b"
  shows "position_recorded b'"
  by (rule for_loop_invariant [OF assms(1), where P = position_recorded])
     (auto intro: assms(2) dest: run_body_recorded)

lemma run_upto_recorded:
  assumes "run_upto b k = Some b'" and "position_recorded b"
  shows "position_recorded b'"
  using assms unfolding run_upto_Some_iff by (auto dest: run_body_loop_recorded)

lemma run_recorded:
  assumes "run b = Some b'" and "position_recorded b"
  shows "position_recorded b'"
proof (cases "length (data b) < size_t_of (longPeriod b + 1)")
  case True
  with assms show ?thesis by (simp add: run_def)
next
  case False
  with assms(1) obtain bl where l: "run_upto b (length (data b)) = Some bl"
    and r: "(if inPosition bl then exitPosition bl (length (data bl) - 1) else Some bl) = Some b'"
    by (auto simp: run_def run_loop_def split: bind_splits)
  from run_upto_recorded [OF l assms(2)] have "position_recorded bl" .
  with r show ?thesis
    by (auto split: if_splits dest: exitPosition_recorded)
qed

lemma Backtester_new_recorded:
  "position_recorded (Backtester_new d shortMA longMA capital rsi ema mcd boll stopLoss takeProfit commission kelly)"
  by (simp add: position_recorded_def Backtester_new_def)

text \<open>The three kinds of bar in the replay.\<close>

lemma drawdown_flat_bar:
  assumes "\<not> holding r"
    and "length (trades b) \<le> tradeIdx r \<or> date (data b ! i) \<noteq> entryDate (trades b ! tradeIdx r)"
  shows "\<not> holding (drawdown_body b i r) \<and> tradeIdx (drawdown_body b i r) = tradeIdx r
       \<and> equity (drawdown_body b i r) = equity r"
  using assms by (auto simp: drawdown_body_def Let_def)

lemma drawdown_exit_bar:
  assumes "replay_tracks b r" and "tradeIdx r < length (trades b)"
    and "holding r \<or> date (data b ! i) = entryDate (trades b ! tradeIdx r)"
    and "date (data b ! i) = exitDate (trades b ! tradeIdx r)"
  shows "\<not> holding (drawdown_body b i r) \<and> tradeIdx (drawdown_body b i r) = tradeIdx r + 1
       \<and> equity (drawdown_body b i r)
           = shares (trades b ! tradeIdx r) * exitPrice (trades b ! tradeIdx r)"
  using assms by (auto simp: drawdown_body_def replay_tracks_def Let_def)

lemma drawdown_held_bar:
  assumes "replay_tracks b r" and "tradeIdx r < length (trades b)"
    and "holding r \<or> date (data b ! i) = entryDate (trades b ! tradeIdx r)"
    and "date (data b ! i) \<noteq> exitDate (trades b ! tradeIdx r)"
  shows "holding (drawdown_body b i r) \<and> tradeIdx (drawdown_body b i r) = tradeIdx r
       \<and> equity (drawdown_body b i r) = shares (trades b ! tradeIdx r) * close (data b ! i)"
  using assms by (auto simp: drawdown_body_def replay_tracks_def Let_def)

lemma drawdown_body_tracks:
  "replay_tracks b r \<Longrightarrow> replay_tracks b (drawdown_body b i r)"
  by (auto simp: drawdown_body_def replay_tracks_def Let_def)

lemma fold_invariant:
  "P s \<Longrightarrow> (\<And>i t. P t \<Longrightarrow> P (f i t)) \<Longrightarrow> P (fold f is s)"
  by (induction "is" arbitrary: s) simp_all

lemma drawdown_upto_tracks: "replay_tracks b (drawdown_upto b k)"
  unfolding drawdown_upto_def
proof (rule fold_invariant)
  show "replay_tracks b (drawdown_start b)"
    by (simp add: replay_tracks_def drawdown_start_def)
next
  fix i t
  assume "replay_tracks b t"
  then show "replay_tracks b (drawdown_body b i t)"
    by (rule drawdown_body_tracks)
qed

lemma drawdown_upto_Suc:
  "size_t_of (longPeriod b) \<le> k \<Longrightarrow>
   drawdown_upto b (Suc k) = drawdown_body b k (drawdown_upto b k)"
  by (simp add: drawdown_upto_def)

text \<open>The replay that \<open>calculateMaxDrawdown\<close> runs is \<open>drawdown_upto\<close> over all the bars.\<close>

lemma calculateMaxDrawdown_replay:
  "data b \<noteq> [] \<Longrightarrow> calculateMaxDrawdown b = maxDD (drawdown_upto b (length (data b)))"
  by (simp add: calculateMaxDrawdown_def)

lemmas drawdown_eval = drawdown_upto_def drawdown_body_def drawdown_start_def

lemma example_flat_run:
  "map_option ledger (run example_flat) = Some (Fin (998001 / 1000), Fin 0, False)"
  by (simp add: example_flat_def example_flat_bars_def run_eval)

lemma example_flat_replay:
  "map_option (\<lambda>b. (equity (drawdown_upto b 5), holding (drawdown_upto b 5),
                     tradeIdx (drawdown_upto b 5)))
     (run example_flat) = Some (Fin 999, False, 1)"
  by (simp add: example_flat_def example_flat_bars_def run_eval drawdown_eval)

lemma example_flat_replay4:
  "map_option (\<lambda>b. (equity (drawdown_upto b 4), holding (drawdown_upto b 4),
                     tradeIdx (drawdown_upto b 4)))
     (run example_flat) = Some (Fin 999, False, 1)"
  by (simp add: example_flat_def example_flat_bars_def run_eval drawdown_eval)

lemma example_flat_replay3:
  "map_option (\<lambda>b. (equity (drawdown_upto b 3), holding (drawdown_upto b 3),
                     tradeIdx (drawdown_upto b 3)))
     (run example_flat) = Some (Fin (5994 / 5), True, 0)"
  by (simp add: example_flat_def example_flat_bars_def run_eval drawdown_eval)

lemma example_flat_drawdown:
  "map_option calculateMaxDrawdown (run example_flat) = Some (Fin (50 / 3))"
  by (simp add: example_flat_def example_flat_bars_def run_eval drawdown_eval
      calculateMaxDrawdown_def)

lemma example_flat_trade:
  "map_option (\<lambda>b. (longPeriod b, length (trades b), shares (last (trades b)),
                     exitPrice (last (trades b)), commissionRate b,
                     exitDate (trades b ! 0), map date (data b)))
     (run example_flat)
   = Some (2, 1, Fin (999 / 10), Fin 10, Fin (1 / 1000), ''2024-01-04'',
           [''2024-01-01'', ''2024-01-02'', ''2024-01-03'', ''2024-01-04'', ''2024-01-05''])"
  by (simp add: example_flat_def example_flat_bars_def run_eval)

lemma example_flat_3:
  "map_option (\<lambda>b. (length (data b), inPosition b)) (run_upto example_flat 3) = Some (5, True)"
  by (simp add: example_flat_def example_flat_bars_def run_eval)

lemma example_flat_exit:
  "map_option currentCash (Option.bind (run_upto example_flat 3) (\<lambda>b. exitPosition b 3))
     = Some (Fin (998001 / 1000))"
  by (simp add: example_flat_def example_flat_bars_def run_eval)

text \<open>
  Claim C8, as stated: on a bar on which the strategy is flat after an exit, the equity
  of the replay is the last realized cash of the ledger, the proceeds net of the exit
  commission. In the run on \<open>example_flat_bars\<close> with a commission rate of \<open>1 / 1000\<close>
  the one trade buys 99.9 shares and is sold at 10 on bar 3: the ledger ends with
  998.001 in cash, and the equity of the replay is 999 after bar 3 and after the flat
  bar 4.
\<close>

theorem drawdown_flat_equity_counterexample:
  "map_option ledger (run example_flat) = Some (Fin (998001 / 1000), Fin 0, False)
   \<and> map_option (\<lambda>b. (equity (drawdown_upto b 4), holding (drawdown_upto b 4),
                       tradeIdx (drawdown_upto b 4)))
       (run example_flat) = Some (Fin 999, False, 1)
   \<and> map_option (\<lambda>b. (equity (drawdown_upto b 5), holding (drawdown_upto b 5),
                       tradeIdx (drawdown_upto b 5)))
       (run example_flat) = Some (Fin 999, False, 1)
   \<and> Fin 999 \<noteq> Fin (998001 / 1000)"
  using example_flat_run example_flat_replay4 example_flat_replay by simp

text \<open>
  Claim C8, amended: the replay of \<open>calculateMaxDrawdown\<close> goes bar by bar, and while it
  holds a trade its share count is that of the trade. On a bar whose date is the exit
  date of the trade that the replay holds (or enters on that bar), the replay becomes
  flat, moves on to the next trade, and its equity becomes the shares of the trade times
  its exit price, the gross proceeds of the sale. On a bar on which the replay is flat and
  no entry date matches, the equity is carried over unchanged, not derived from a price.
  Both are said of one round of the loop from any state of the locals, and of the round
  for bar \<open>k\<close> from the state that the replay is in when it gets there. The cash that an
  exit leaves in the ledger, and that a run of a fresh engine ends with when it has
  traded, is that amount less the exit commission on it, so the two agree only where no
  commission was charged.
\<close>

theorem drawdown_flat_equity:
  "replay_tracks b (drawdown_upto b k)
   \<and> (size_t_of (longPeriod b) \<le> k \<longrightarrow>
        drawdown_upto b (Suc k) = drawdown_body b k (drawdown_upto b k))
   \<and> (data b \<noteq> [] \<longrightarrow> calculateMaxDrawdown b = maxDD (drawdown_upto b (length (data b))))
   \<and> (replay_tracks b r \<and> tradeIdx r < length (trades b)
       \<and> (holding r \<or> date (data b ! i) = entryDate (trades b ! tradeIdx r))
       \<and> date (data b ! i) = exitDate (trades b ! tradeIdx r) \<longrightarrow>
      \<not> holding (drawdown_body b i r) \<and> tradeIdx (drawdown_body b i r) = tradeIdx r + 1
      \<and> equity (drawdown_body b i r)
          = shares (trades b ! tradeIdx r) * exitPrice (trades b ! tradeIdx r))
   \<and> (\<not> holding r
       \<and> (length (trades b) \<le> tradeIdx r
           \<or> date (data b ! i) \<noteq> entryDate (trades b ! tradeIdx r)) \<longrightarrow>
      \<not> holding (drawdown_body b i r) \<and> tradeIdx (drawdown_body b i r) = tradeIdx r
      \<and> equity (drawdown_body b i r) = equity r)
   \<and> (size_t_of (longPeriod b) \<le> k \<and> tradeIdx (drawdown_upto b k) < length (trades b)
       \<and> (holding (drawdown_upto b k)
           \<or> date (data b ! k) = entryDate (trades b ! tradeIdx (drawdown_upto b k)))
       \<and> date (data b ! k) = exitDate (trades b ! tradeIdx (drawdown_upto b k)) \<longrightarrow>
      \<not> holding (drawdown_upto b (Suc k))
      \<and> tradeIdx (drawdown_upto b (Suc k)) = tradeIdx (drawdown_upto b k) + 1
      \<and> equity (drawdown_upto b (Suc k))
          = shares (trades b ! tradeIdx (drawdown_upto b k))
            * exitPrice (trades b ! tradeIdx (drawdown_upto b k)))
   \<and> (size_t_of (longPeriod b) \<le> k \<and> \<not> holding (drawdown_upto b k)
       \<and> (length (trades b) \<le> tradeIdx (drawdown_upto b k)
           \<or> date (data b ! k) \<noteq> entryDate (trades b ! tradeIdx (drawdown_upto b k))) \<longrightarrow>
      \<not> holding (drawdown_upto b (Suc k))
      \<and> tradeIdx (drawdown_upto b (Suc k)) = tradeIdx (drawdown_upto b k)
      \<and> equity (drawdown_upto b (Suc k)) = equity (drawdown_upto b k))
   \<and> (i < length (data e) \<and> inPosition e \<and> position_recorded e \<longrightarrow>
      (\<exists>e'. exitPosition e i = Some e'
         \<and> currentCash e' = shares (last (trades e')) * exitPrice (last (trades e'))
              - shares (last (trades e')) * exitPrice (last (trades e')) * commissionRate e'))
   \<and> (0 < shortMA \<and> 0 < longMA \<longrightarrow>
      (\<exists>st. run (Backtester_new d shortMA longMA capital rsi ema mcd boll stopLoss takeProfit
                    commission kelly) = Some st
         \<and> \<not> inPosition st
         \<and> (trades st \<noteq> [] \<longrightarrow>
              currentCash st = shares (last (trades st)) * exitPrice (last (trades st))
                - shares (last (trades st)) * exitPrice (last (trades st)) * commissionRate st)))"
proof -
  have 1: "\<not> holding (drawdown_body b i r) \<and> tradeIdx (drawdown_body b i r) = tradeIdx r + 1
      \<and> equity (drawdown_body b i r)
          = shares (trades b ! tradeIdx r) * exitPrice (trades b ! tradeIdx r)"
    if "replay_tracks b r" "tradeIdx r < length (trades b)"
      "holding r \<or> date (data b ! i) = entryDate (trades b ! tradeIdx r)"
      "date (data b ! i) = exitDate (trades b ! tradeIdx r)"
    using drawdown_exit_bar [OF that] .
  have 2: "\<not> holding (drawdown_body b i r) \<and> tradeIdx (drawdown_body b i r) = tradeIdx r
      \<and> equity (drawdown_body b i r) = equity r"
    if "\<not> holding r"
      "length (trades b) \<le> tradeIdx r \<or> date (data b ! i) \<noteq> entryDate (trades b ! tradeIdx r)"
    using drawdown_flat_bar [OF that] .
  have 5: "\<not> holding (drawdown_upto b (Suc k))
      \<and> tradeIdx (drawdown_upto b (Suc k)) = tradeIdx (drawdown_upto b k) + 1
      \<and> equity (drawdown_upto b (Suc k))
          = shares (trades b ! tradeIdx (drawdown_upto b k))
            * exitPrice (trades b ! tradeIdx (drawdown_upto b k))"
    if "size_t_of (longPeriod b) \<le> k" "tradeIdx (drawdown_upto b k) < length (trades b)"
      "holding (drawdown_upto b k)
       \<or> date (data b ! k) = entryDate (trades b ! tradeIdx (drawdown_upto b k))"
      "date (data b ! k) = exitDate (trades b ! tradeIdx (drawdown_upto b k))"
    using drawdown_exit_bar [OF drawdown_upto_tracks that(2,3,4)]
    unfolding drawdown_upto_Suc [OF that(1)] .
  have 6: "\<not> holding (drawdown_upto b (Suc k))
      \<and> tradeIdx (drawdown_upto b (Suc k)) = tradeIdx (drawdown_upto b k)
      \<and> equity (drawdown_upto b (Suc k)) = equity (drawdown_upto b k)"
    if "size_t_of (longPeriod b) \<le> k" "\<not> holding (drawdown_upto b k)"
      "length (trades b) \<le> tradeIdx (drawdown_upto b k)
       \<or> date (data b ! k) \<noteq> entryDate (trades b ! tradeIdx (drawdown_upto b k))"
    using drawdown_flat_bar [OF that(2,3)]
    unfolding drawdown_upto_Suc [OF that(1)] .
  have 3: "\<exists>e'. exitPosition e i = Some e'
         \<and> currentCash e' = shares (last (trades e')) * exitPrice (last (trades e'))
              - shares (last (trades e')) * exitPrice (last (trades e')) * commissionRate e'"
    if i: "i < length (data e)" and p: "inPosition e" "position_recorded e"
  proof -
    from p have "trades e \<noteq> []" by (simp add: position_recorded_def)
    from exitPosition_total [OF i this] obtain e' where x: "exitPosition e i = Some e'"
      by blast
    from exitPosition_recorded [OF x p] exitPosition_ledger [OF x] x
    have "trades e' \<noteq> [] \<longrightarrow> currentCash e' =
        shares (last (trades e')) * exitPrice (last (trades e'))
        - shares (last (trades e')) * exitPrice (last (trades e')) * commissionRate e'"
      by (auto simp: position_recorded_def)
    moreover from x have "trades e' \<noteq> []" by (auto elim: exitPosition_Some)
    ultimately show ?thesis using x by blast
  qed
  let ?b0 = "Backtester_new d shortMA longMA capital rsi ema mcd boll stopLoss takeProfit
                    commission kelly"
  have 4: "\<exists>st. run ?b0 = Some st \<and> \<not> inPosition st
         \<and> (trades st \<noteq> [] \<longrightarrow>
              currentCash st = shares (last (trades st)) * exitPrice (last (trades st))
                - shares (last (trades st)) * exitPrice (last (trades st)) * commissionRate st)"
    if q: "0 < shortMA" "0 < longMA"
  proof -
    from run_new_total [OF q] obtain st where s: "run ?b0 = Some st" "\<not> inPosition st"
      by blast
    from run_recorded [OF s(1) Backtester_new_recorded] s show ?thesis
      by (auto simp: position_recorded_def)
  qed
  from drawdown_upto_tracks [of b k] drawdown_upto_Suc [of b k] calculateMaxDrawdown_replay [of b]
    1 2 5 6 3 4
  show ?thesis by blast
qed

theorem drawdown_flat_equity_witness:
  "\<exists>st e e'.
      run example_flat = Some st
    \<and> replay_tracks st (drawdown_upto st 3)
    \<and> size_t_of (longPeriod st) \<le> 3
    \<and> drawdown_upto st (Suc 3) = drawdown_body st 3 (drawdown_upto st 3)
    \<and> data st \<noteq> [] \<and> calculateMaxDrawdown st = maxDD (drawdown_upto st (length (data st)))
    \<and> tradeIdx (drawdown_upto st 3) < length (trades st) \<and> holding (drawdown_upto st 3)
    \<and> date (data st ! 3) = exitDate (trades st ! tradeIdx (drawdown_upto st 3))
    \<and> \<not> holding (drawdown_body st 3 (drawdown_upto st 3))
    \<and> equity (drawdown_body st 3 (drawdown_upto st 3)) = Fin 999
    \<and> equity (drawdown_upto st (Suc 3)) = Fin 999
    \<and> \<not> holding (drawdown_upto st 4) \<and> length (trades st) \<le> tradeIdx (drawdown_upto st 4)
    \<and> size_t_of (longPeriod st) \<le> 4
    \<and> equity (drawdown_body st 4 (drawdown_upto st 4)) = Fin 999
    \<and> equity (drawdown_upto st (Suc 4)) = Fin 999
    \<and> run_upto example_flat 3 = Some e \<and> 3 < length (data e) \<and> inPosition e
    \<and> position_recorded e
    \<and> exitPosition e 3 = Some e' \<and> currentCash e' = Fin (998001 / 1000)
    \<and> (0::int) < 1 \<and> (0::int) < 2
    \<and> \<not> inPosition st \<and> trades st \<noteq> [] \<and> currentCash st = Fin (998001 / 1000)"
proof -
  from map_option_Some_ex [OF example_flat_trade] obtain st where
    st: "run example_flat = Some st"
    and t: "longPeriod st = 2" "length (trades st) = 1" "shares (last (trades st)) = Fin (999 / 10)"
      "exitPrice (last (trades st)) = Fin 10" "commissionRate st = Fin (1 / 1000)"
      "exitDate (trades st ! 0) = ''2024-01-04''"
      "map date (data st)
         = [''2024-01-01'', ''2024-01-02'', ''2024-01-03'', ''2024-01-04'', ''2024-01-05'']"
    by auto
  from arg_cong [OF t(7), of length] have n: "length (data st) = 5" by simp
  then have d: "data st \<noteq> []" by auto
  from arg_cong [OF t(7), of "\<lambda>xs. xs ! 3"] n have d3: "date (data st ! 3) = ''2024-01-04''"
    by simp
  from example_flat_run st have l: "ledger st = (Fin (998001 / 1000), Fin 0, False)" by simp
  from t have ne: "trades st \<noteq> []" by auto
  from t ne have t0: "trades st ! 0 = last (trades st)"
    by (simp add: last_conv_nth)
  from example_flat_replay3 st have
    v3: "holding (drawdown_upto st 3)" "tradeIdx (drawdown_upto st 3) = 0"
    by auto
  from example_flat_replay4 st have
    v4: "equity (drawdown_upto st 4) = Fin 999" "\<not> holding (drawdown_upto st 4)"
      "tradeIdx (drawdown_upto st 4) = 1"
    by auto
  have g: "size_t_of (longPeriod st) \<le> 3"
    by (simp add: t size_t_of_def)
  from map_option_Some_ex [OF example_flat_3] obtain e where
    e: "run_upto example_flat 3 = Some e" and ve: "length (data e) = 5" "inPosition e"
    by auto
  have re: "position_recorded e"
    using run_upto_recorded [OF e] Backtester_new_recorded by (simp add: example_flat_def)
  have h3: "(0::int) < 1" "(0::int) < 2" by simp_all
  note T = drawdown_flat_equity [where b = st and d = example_flat_bars and shortMA = 1
      and longMA = 2 and capital = "Fin 1000" and rsi = False and ema = False and mcd = False
      and boll = False and stopLoss = "Fin 0" and takeProfit = "Fin 0"
      and commission = "Fin (1 / 1000)" and kelly = False and e = e,
      unfolded example_flat_def [symmetric]]
  note T3 = T [where k = 3 and i = 3 and r = "drawdown_upto st 3"]
  note T4 = T [where k = 4 and i = 4 and r = "drawdown_upto st 4"]
  from T3 have 1: "replay_tracks st (drawdown_upto st 3)" by blast
  from T3 g have 2: "drawdown_upto st (Suc 3) = drawdown_body st 3 (drawdown_upto st 3)"
    by blast
  from T3 d have 3: "calculateMaxDrawdown st = maxDD (drawdown_upto st (length (data st)))"
    by blast
  have c: "tradeIdx (drawdown_upto st 3) < length (trades st)"
    "date (data st ! 3) = exitDate (trades st ! tradeIdx (drawdown_upto st 3))"
    by (simp_all add: v3 t d3)
  from T3 1 c v3(1) have 4: "\<not> holding (drawdown_body st 3 (drawdown_upto st 3))"
    "equity (drawdown_body st 3 (drawdown_upto st 3))
       = shares (trades st ! tradeIdx (drawdown_upto st 3))
         * exitPrice (trades st ! tradeIdx (drawdown_upto st 3))"
    by blast+
  from 4(2) have 5: "equity (drawdown_body st 3 (drawdown_upto st 3)) = Fin 999"
    by (simp add: v3 t0 t double_eval)
  have f: "length (trades st) \<le> tradeIdx (drawdown_upto st 4)"
    by (simp add: v4 t)
  from T4 v4(2) f have "equity (drawdown_body st 4 (drawdown_upto st 4))
      = equity (drawdown_upto st 4)"
    by blast
  with v4 have 6: "equity (drawdown_body st 4 (drawdown_upto st 4)) = Fin 999" by simp
  have g4: "size_t_of (longPeriod st) \<le> 4"
    by (simp add: t size_t_of_def)
  from T3 g c v3(1) have "equity (drawdown_upto st (Suc 3))
       = shares (trades st ! tradeIdx (drawdown_upto st 3))
         * exitPrice (trades st ! tradeIdx (drawdown_upto st 3))"
    by blast
  then have e5: "equity (drawdown_upto st (Suc 3)) = Fin 999"
    by (simp add: v3 t0 t double_eval)
  from T4 g4 v4(2) f have "equity (drawdown_upto st (Suc 4)) = equity (drawdown_upto st 4)"
    by blast
  with v4 have e6: "equity (drawdown_upto st (Suc 4)) = Fin 999" by simp
  have i3: "3 < length (data e)" by (simp add: ve)
  from T3 i3 ve(2) re obtain e' where x: "exitPosition e 3 = Some e'"
    by blast
  from example_flat_exit e x have 7: "currentCash e' = Fin (998001 / 1000)" by simp
  from T3 h3 st have "trades st \<noteq> [] \<longrightarrow>
      currentCash st = shares (last (trades st)) * exitPrice (last (trades st))
        - shares (last (trades st)) * exitPrice (last (trades st)) * commissionRate st"
    by auto
  with ne have 8: "currentCash st = Fin (998001 / 1000)"
    by (simp add: t double_eval)
  from l have 9: "\<not> inPosition st" by (simp add: ledger_def)
  from st 1 g 2 d 3 c v3(1) 4(1) 5 e5 v4(2) f g4 6 e6 e i3 ve(2) re x 7 h3 9 ne 8
  show ?thesis by blast
qed

end
